theory Spec2Isabelle
  imports Main "HOL-Library.Word"
begin

unbundle bit_operations_syntax

section \<open>qmempool: a quick queue based mempool (kernel/mm/qmempool.c)\<close>

text \<open>
  The pool keeps elements of one slab cache in two tiers of ring queues: one local
  queue per possible CPU and one queue shared by all CPUs. This theory embeds
  \<^verbatim>\<open>qmempool_destroy\<close>, \<open>qmempool_create\<close>, \<open>__qmempool_alloc_from_sharedq\<close>,
  \<open>__qmempool_alloc_from_slab\<close> and \<open>__qmempool_free_to_slab\<close> as functions that pass
  the kernel state and the pool explicitly. A NULL pointer is \<open>None\<close>; a \<open>BUG_ON\<close> that
  fires and a dereference of NULL are values of the type \<open>fault\<close>. The functions whose
  C names start with two underscores drop them here.
\<close>

subsection \<open>Constants\<close>

text \<open>
  Modelled from the spec: the header \<open>linux/qmempool.h\<close> with the two macros is not part
  of the sources. The values are the ones the comments of \<open>qmempool_create\<close> give
  (\<open>REFILL_MULTIPLIER(2) * BULK(16)\<close>) and the ones of the scenario in section 8 of the
  specification (\<open>16 \<ge> BULK(16)\<close>, \<open>64 > 16 \<times> 2\<close>).
\<close>

definition QMEMPOOL_BULK :: nat where
  "QMEMPOOL_BULK = 16"

definition QMEMPOOL_REFILL_MULTIPLIER :: nat where
  "QMEMPOOL_REFILL_MULTIPLIER = 2"

subsection \<open>The kernel state\<close>

type_synonym elem = nat

datatype fault = BUG | NULL_DEREF

text \<open>
  Modelled from the spec: the backing allocator (a slab cache) and the kernel's object
  allocator are external (section 6). \<open>slab_plan\<close> lists what the next calls of
  \<open>kmem_cache_alloc\<close> return (\<open>None\<close> is NULL, an exhausted plan gives NULL),
  \<open>slab_allocs\<close> counts the calls and \<open>slab_frees\<close> logs the elements handed to
  \<open>kmem_cache_free\<close>, oldest first. \<open>mem_plan\<close> lists whether the next calls of
  \<open>kzalloc\<close>, \<open>ring_queue_create\<close> and \<open>alloc_percpu\<close> succeed; \<open>mem_allocs\<close> counts the
  objects these calls handed out and \<open>mem_frees\<close> the objects released by \<open>kfree\<close>,
  \<open>ring_queue_free\<close> and \<open>free_percpu\<close>. \<open>nr_cpus\<close> is the number of possible CPUs.
\<close>

record kernel =
  nr_cpus :: nat
  slab_plan :: "elem option list"
  slab_allocs :: nat
  slab_frees :: "elem list"
  mem_plan :: "bool list"
  mem_allocs :: nat
  mem_frees :: nat

definition kmem_cache_alloc :: "kernel \<Rightarrow> elem option \<times> kernel" where
  "kmem_cache_alloc k =
     (case slab_plan k of
        [] \<Rightarrow> (None, k\<lparr>slab_allocs := slab_allocs k + 1\<rparr>)
      | r # rs \<Rightarrow> (r, k\<lparr>slab_plan := rs, slab_allocs := slab_allocs k + 1\<rparr>))"

definition kmem_cache_free :: "elem \<Rightarrow> kernel \<Rightarrow> kernel" where
  "kmem_cache_free e k = k\<lparr>slab_frees := slab_frees k @ [e]\<rparr>"

definition mem_alloc :: "kernel \<Rightarrow> bool \<times> kernel" where
  "mem_alloc k =
     (case mem_plan k of
        [] \<Rightarrow> (False, k)
      | ok # rest \<Rightarrow>
          (ok, k\<lparr>mem_plan := rest,
                 mem_allocs := mem_allocs k + (if ok then 1 else 0)\<rparr>))"

definition mem_release :: "kernel \<Rightarrow> kernel" where
  "mem_release k = k\<lparr>mem_frees := mem_frees k + 1\<rparr>"

subsection \<open>The ring queue\<close>

text \<open>
  Modelled from the spec: \<open>linux/ring_queue.h\<close> and the ring queue's code are not part of
  the sources. Section 6 of the specification gives the interface: a fixed capacity,
  single enqueue and dequeue that fail on a full and on an empty ring, bulk variants that
  are all-or-nothing, and an emptiness test. Section 3 gives the usable capacity,
  \<open>capacity - 1\<close> (the source notes that a ring queue of size 16 can only contain 15 elements). A ring is
  its capacity and the elements it holds, oldest first. A failure (a negative return
  value in C) is \<open>None\<close>.
\<close>

record ring_queue =
  rq_size :: nat
  rq_objs :: "elem list"

text \<open>
  Modelled from the spec: \<open>create(capacity, flags) -> Ring | Error\<close>. The flags select the
  synchronisation of the ring only and are left out; whether the allocation succeeds is
  the next entry of \<open>mem_plan\<close>.
\<close>

definition ring_queue_create :: "nat \<Rightarrow> kernel \<Rightarrow> ring_queue option \<times> kernel" where
  "ring_queue_create sz k =
     (case mem_alloc k of
        (True, k') \<Rightarrow> (Some \<lparr>rq_size = sz, rq_objs = []\<rparr>, k')
      | (False, k') \<Rightarrow> (None, k'))"

text \<open>Modelled from the spec: \<open>free(ring)\<close> releases the ring.\<close>

definition ring_queue_free :: "ring_queue \<Rightarrow> kernel \<Rightarrow> kernel" where
  "ring_queue_free q k = mem_release k"

text \<open>Modelled from the spec: \<open>is_empty(ring) -> bool\<close>.\<close>

definition ring_queue_empty :: "ring_queue \<Rightarrow> bool" where
  "ring_queue_empty q = (rq_objs q = [])"

text \<open>
  Modelled from the spec: \<open>enqueue(ring, elem) -> Ok | Full\<close>, with at most
  \<open>capacity - 1\<close> elements in the ring.
\<close>

definition ring_queue_enqueue :: "ring_queue \<Rightarrow> elem \<Rightarrow> ring_queue option" where
  "ring_queue_enqueue q e =
     (if length (rq_objs q) + 1 \<le> rq_size q - 1
      then Some (q\<lparr>rq_objs := rq_objs q @ [e]\<rparr>) else None)"

text \<open>Modelled from the spec: \<open>dequeue(ring) -> Ok(elem) | Empty\<close>.\<close>

definition ring_queue_dequeue :: "ring_queue \<Rightarrow> (elem \<times> ring_queue) option" where
  "ring_queue_dequeue q =
     (case rq_objs q of
        [] \<Rightarrow> None
      | e # es \<Rightarrow> Some (e, q\<lparr>rq_objs := es\<rparr>))"

text \<open>
  Modelled from the spec: \<open>enqueue_bulk(ring, elems[n]) -> Ok | Full\<close>, all-or-nothing:
  the \<open>n\<close> first entries of \<open>obj_table\<close> are appended when the ring has room for all of
  them, and nothing is otherwise.
\<close>

definition ring_queue_enqueue_bulk :: "ring_queue \<Rightarrow> elem list \<Rightarrow> nat \<Rightarrow> ring_queue option" where
  "ring_queue_enqueue_bulk q obj_table n =
     (if length (rq_objs q) + n \<le> rq_size q - 1
      then Some (q\<lparr>rq_objs := rq_objs q @ take n obj_table\<rparr>) else None)"

text \<open>
  Modelled from the spec: \<open>dequeue_bulk(ring, out[n]) -> Ok | Empty\<close>, all-or-nothing:
  the \<open>n\<close> oldest elements leave the ring when it holds that many, and nothing does
  otherwise.
\<close>

definition ring_queue_dequeue_bulk :: "ring_queue \<Rightarrow> nat \<Rightarrow> (elem list \<times> ring_queue) option" where
  "ring_queue_dequeue_bulk q n =
     (if n \<le> length (rq_objs q)
      then Some (take n (rq_objs q), q\<lparr>rq_objs := drop n (rq_objs q)\<rparr>) else None)"

text \<open>
  Modelled from the spec: the single-producer, multi-producer and multi-consumer
  variants differ in their synchronisation only (section 6); in this sequential model
  each is the bulk operation above.
\<close>

definition ring_queue_sp_enqueue_bulk :: "ring_queue \<Rightarrow> elem list \<Rightarrow> nat \<Rightarrow> ring_queue option" where
  "ring_queue_sp_enqueue_bulk = ring_queue_enqueue_bulk"

definition ring_queue_mp_enqueue_bulk :: "ring_queue \<Rightarrow> elem list \<Rightarrow> nat \<Rightarrow> ring_queue option" where
  "ring_queue_mp_enqueue_bulk = ring_queue_enqueue_bulk"

definition ring_queue_mc_dequeue_bulk :: "ring_queue \<Rightarrow> nat \<Rightarrow> (elem list \<times> ring_queue) option" where
  "ring_queue_mc_dequeue_bulk = ring_queue_dequeue_bulk"

subsection \<open>The pool\<close>

text \<open>
  Modelled from the spec: \<open>struct qmempool\<close> and \<open>struct qmempool_percpu\<close> are declared in
  \<open>linux/qmempool.h\<close>, which is not part of the sources (section 3 lists their fields).
  The fields are the ones the source reads and writes through \<open>pool->\<close> and \<open>cpu->\<close>.
  The per-CPU table is a list with one entry per possible CPU, so that
  \<open>per_cpu_ptr(pool->percpu, j)\<close> is its entry \<open>j\<close> and \<open>for_each_possible_cpu\<close> walks it
  from the front.
\<close>

record qmempool_percpu =
  localq :: "ring_queue option"
  refill_cnt :: nat
  full_cnt :: nat
  owner_cpu :: int

record qmempool =
  kmem :: "nat option"
  gfp_mask :: nat
  sharedq :: "ring_queue option"
  prealloc :: "32 word"
  percpu :: "qmempool_percpu list option"

text \<open>
  \<open>kzalloc\<close> and \<open>alloc_percpu\<close> hand out zero-filled memory, so every pointer of a
  fresh pool record and of a fresh per-CPU entry is NULL. Whether they succeed is the
  next entry of \<open>mem_plan\<close>.
\<close>

definition kzalloc_pool :: "kernel \<Rightarrow> qmempool option \<times> kernel" where
  "kzalloc_pool k =
     (case mem_alloc k of
        (True, k') \<Rightarrow>
          (Some \<lparr>kmem = None, gfp_mask = 0, sharedq = None, prealloc = 0, percpu = None\<rparr>, k')
      | (False, k') \<Rightarrow> (None, k'))"

definition alloc_percpu :: "kernel \<Rightarrow> qmempool_percpu list option \<times> kernel" where
  "alloc_percpu k =
     (case mem_alloc k of
        (True, k') \<Rightarrow>
          (Some (replicate (nr_cpus k)
                   \<lparr>localq = None, refill_cnt = 0, full_cnt = 0, owner_cpu = 0\<rparr>), k')
      | (False, k') \<Rightarrow> (None, k'))"

definition free_percpu :: "kernel \<Rightarrow> kernel" where
  "free_percpu k = mem_release k"

definition kfree :: "kernel \<Rightarrow> kernel" where
  "kfree k = mem_release k"

subsection \<open>qmempool_destroy\<close>

text \<open>
  \<open>while (ring_queue_dequeue(q, &elem) >= 0) kmem_cache_free(pool->kmem, elem);\<close>
\<close>

function drain_queue :: "ring_queue \<Rightarrow> kernel \<Rightarrow> ring_queue \<times> kernel" where
  "drain_queue q k =
     (case ring_queue_dequeue q of
        None \<Rightarrow> (q, k)
      | Some (e, q') \<Rightarrow> drain_queue q' (kmem_cache_free e k))"
  by pat_completeness auto
termination
  by (relation "measure (\<lambda>(q, k). length (rq_objs q))")
     (auto simp: ring_queue_dequeue_def split: list.splits)

declare drain_queue.simps [simp del]

text \<open>
  The body of \<open>for_each_possible_cpu\<close> in \<open>qmempool_destroy\<close>. The ring operations
  dereference the ring they are given, so a NULL \<open>cpu->localq\<close> is a fault.
\<close>

fun destroy_percpu :: "qmempool_percpu list \<Rightarrow> kernel \<Rightarrow> fault + kernel" where
  "destroy_percpu [] k = Inr k"
| "destroy_percpu (cpu # cpus) k =
     (case localq cpu of
        None \<Rightarrow> Inl NULL_DEREF
      | Some q \<Rightarrow>
          (case drain_queue q k of
             (q', k') \<Rightarrow>
               if \<not> ring_queue_empty q' then Inl BUG
               else destroy_percpu cpus (ring_queue_free q' k')))"

definition destroy_sharedq :: "ring_queue \<Rightarrow> kernel \<Rightarrow> fault + kernel" where
  "destroy_sharedq q k =
     (case drain_queue q k of
        (q', k') \<Rightarrow>
          if \<not> ring_queue_empty q' then Inl BUG
          else Inr (ring_queue_free q' k'))"

text \<open>
  \<open>qmempool_destroy\<close>: the local tier when \<open>pool->percpu\<close> is set, the shared tier when
  \<open>pool->sharedq\<close> is set, then \<open>kfree(pool)\<close>.
\<close>

definition qmempool_destroy :: "qmempool \<Rightarrow> kernel \<Rightarrow> fault + kernel" where
  "qmempool_destroy pool k =
     (case (case percpu pool of
              None \<Rightarrow> Inr k
            | Some cpus \<Rightarrow>
                (case destroy_percpu cpus k of
                   Inl f \<Rightarrow> Inl f
                 | Inr k1 \<Rightarrow> Inr (free_percpu k1))) of
        Inl f \<Rightarrow> Inl f
      | Inr k2 \<Rightarrow>
          (case (case sharedq pool of
                   None \<Rightarrow> Inr k2
                 | Some q \<Rightarrow> destroy_sharedq q k2) of
             Inl f \<Rightarrow> Inl f
           | Inr k3 \<Rightarrow> Inr (kfree k3)))"

subsection \<open>qmempool_create\<close>

definition POWEROF2 :: "32 word \<Rightarrow> bool" where
  "POWEROF2 x = (x AND (x - 1) = 0)"

text \<open>\<open>qmempool_destroy(pool); return NULL;\<close>\<close>

definition destroy_return_NULL :: "qmempool \<Rightarrow> kernel \<Rightarrow> fault + (qmempool option \<times> kernel)" where
  "destroy_return_NULL pool k =
     (case qmempool_destroy pool k of
        Inl f \<Rightarrow> Inl f
      | Inr k' \<Rightarrow> Inr (None, k'))"

text \<open>
  \<open>for (i = 0; i < prealloc; i++)\<close>: the first argument counts the iterations left.
\<close>

fun prealloc_loop :: "nat \<Rightarrow> qmempool \<Rightarrow> kernel \<Rightarrow> fault + (qmempool option \<times> kernel)" where
  "prealloc_loop 0 pool k = Inr (Some pool, k)"
| "prealloc_loop (Suc n) pool k =
     (case kmem_cache_alloc k of
        (None, k') \<Rightarrow> destroy_return_NULL pool k'
      | (Some e, k') \<Rightarrow>
          (case sharedq pool of
             None \<Rightarrow> Inl NULL_DEREF
           | Some q \<Rightarrow>
               (case ring_queue_enqueue q e of
                  None \<Rightarrow> Inl BUG
                | Some q' \<Rightarrow> prealloc_loop n (pool\<lparr>sharedq := Some q'\<rparr>) k')))"

text \<open>
  \<open>for_each_possible_cpu(j)\<close> of \<open>qmempool_create\<close>: the first argument counts the CPUs
  left, \<open>j\<close> is the current one.
\<close>

fun create_localqs :: "nat \<Rightarrow> nat \<Rightarrow> nat \<Rightarrow> qmempool \<Rightarrow> kernel \<Rightarrow> fault + (qmempool option \<times> kernel)" where
  "create_localqs 0 j localq_sz pool k = Inr (Some pool, k)"
| "create_localqs (Suc n) j localq_sz pool k =
     (case percpu pool of
        None \<Rightarrow> Inl NULL_DEREF
      | Some cpus \<Rightarrow>
          (case ring_queue_create localq_sz k of
             (None, k') \<Rightarrow>
               destroy_return_NULL
                 (pool\<lparr>percpu := Some (cpus[j := (cpus ! j)\<lparr>localq := None\<rparr>])\<rparr>) k'
           | (Some q, k') \<Rightarrow>
               create_localqs n (Suc j) localq_sz
                 (pool\<lparr>percpu := Some (cpus[j := (cpus ! j)\<lparr>localq := Some q, refill_cnt := 0,
                                                        full_cnt := 0, owner_cpu := - 1\<rparr>])\<rparr>) k'))"

text \<open>
  \<open>qmempool_create\<close>. The messages of \<open>pr_err\<close> and \<open>pr_warn\<close> are not modelled, so the
  check of \<open>prealloc % QMEMPOOL_BULK\<close>, which only warns, has no counterpart. The result
  is the pool (or NULL) and the kernel state.
\<close>

definition qmempool_create ::
  "32 word \<Rightarrow> 32 word \<Rightarrow> 32 word \<Rightarrow> nat option \<Rightarrow> nat \<Rightarrow> kernel \<Rightarrow> fault + (qmempool option \<times> kernel)" where
  "qmempool_create localq_sz sharedq_sz nprealloc kmem_ptr flags k =
     (if unat localq_sz < QMEMPOOL_BULK then Inr (None, k)
      else if unat sharedq_sz \<le> QMEMPOOL_BULK * QMEMPOOL_REFILL_MULTIPLIER then Inr (None, k)
      else if \<not> POWEROF2 localq_sz \<or> \<not> POWEROF2 sharedq_sz then Inr (None, k)
      else if nprealloc \<ge> sharedq_sz then Inr (None, k)
      else if kmem_ptr = None then Inr (None, k)
      else
        (case kzalloc_pool k of
           (None, k1) \<Rightarrow> Inr (None, k1)
         | (Some pool0, k1) \<Rightarrow>
             (let pool1 = pool0\<lparr>kmem := kmem_ptr, gfp_mask := flags\<rparr> in
              case ring_queue_create (unat sharedq_sz) k1 of
                (None, k2) \<Rightarrow> destroy_return_NULL (pool1\<lparr>sharedq := None\<rparr>) k2
              | (Some q, k2) \<Rightarrow>
                  (case prealloc_loop (unat nprealloc)
                          (pool1\<lparr>sharedq := Some q, prealloc := nprealloc\<rparr>) k2 of
                     Inl f \<Rightarrow> Inl f
                   | Inr (None, k3) \<Rightarrow> Inr (None, k3)
                   | Inr (Some pool2, k3) \<Rightarrow>
                       (case alloc_percpu k3 of
                          (None, k4) \<Rightarrow> destroy_return_NULL (pool2\<lparr>percpu := None\<rparr>) k4
                        | (Some tbl, k4) \<Rightarrow>
                            create_localqs (length tbl) 0 (unat localq_sz)
                              (pool2\<lparr>percpu := Some tbl\<rparr>) k4)))))"

subsection \<open>Element handling\<close>

text \<open>
  \<open>__qmempool_alloc_from_sharedq\<close>: called when the local queue \<open>lq\<close> ran out of
  elements. The result is the returned element (or NULL), the pool and the local queue.
  The dequeued batch has \<open>QMEMPOOL_BULK\<close> entries; \<open>elems[0]\<close> is returned and the
  \<open>QMEMPOOL_BULK - 1\<close> entries from \<open>&elems[1]\<close> on go to the local queue.
\<close>

definition qmempool_alloc_from_sharedq ::
  "qmempool \<Rightarrow> nat \<Rightarrow> ring_queue \<Rightarrow> fault + (elem option \<times> qmempool \<times> ring_queue)" where
  "qmempool_alloc_from_sharedq pool flags lq =
     (case sharedq pool of
        None \<Rightarrow> Inl NULL_DEREF
      | Some sq \<Rightarrow>
          (case ring_queue_mc_dequeue_bulk sq QMEMPOOL_BULK of
             Some (elems, sq') \<Rightarrow>
               (case ring_queue_sp_enqueue_bulk lq (drop 1 elems) (QMEMPOOL_BULK - 1) of
                  None \<Rightarrow> Inl BUG
                | Some lq' \<Rightarrow> Inr (Some (elems ! 0), pool\<lparr>sharedq := Some sq'\<rparr>, lq'))
           | None \<Rightarrow> Inr (None, pool, lq)))"

text \<open>
  The inner loop of \<open>__qmempool_alloc_from_slab\<close>,
  \<open>for (j = 0; j < QMEMPOOL_BULK; j++)\<close>: the first argument counts the iterations left,
  \<open>elems\<close> holds the entries \<open>0 .. j - 1\<close> written so far, so \<open>j = length elems\<close>. The
  result is \<open>Inr\<close> of the full array, or \<open>Inl\<close> of the entries written before the
  allocation of \<open>elems[j]\<close> gave NULL.
\<close>

fun alloc_round :: "nat \<Rightarrow> elem list \<Rightarrow> kernel \<Rightarrow> (elem list + elem list) \<times> kernel" where
  "alloc_round 0 elems k = (Inr elems, k)"
| "alloc_round (Suc n) elems k =
     (case kmem_cache_alloc k of
        (None, k') \<Rightarrow> (Inl elems, k')
      | (Some e, k') \<Rightarrow> alloc_round n (elems @ [e]) k')"

text \<open>
  The count of a bulk operation is an \<open>unsigned\<close>: the \<open>int\<close> value \<open>j - 1\<close> is converted
  to 32 bits without sign, so that \<open>j = 0\<close> asks for \<open>2 ^ 32 - 1\<close> entries.
\<close>

definition bulk_count :: "int \<Rightarrow> nat" where
  "bulk_count n = unat (word_of_int n :: 32 word)"

text \<open>
  The outer loop, \<open>for (i = 0; i < QMEMPOOL_REFILL_MULTIPLIER; i++)\<close>: the first
  argument counts the rounds left, \<open>e\<close> is the element set aside for the caller.
\<close>

fun refill_rounds ::
  "nat \<Rightarrow> elem \<Rightarrow> qmempool \<Rightarrow> kernel \<Rightarrow> fault + (elem option \<times> qmempool \<times> kernel)" where
  "refill_rounds 0 e pool k = Inr (Some e, pool, k)"
| "refill_rounds (Suc i) e pool k =
     (case sharedq pool of
        None \<Rightarrow> Inl NULL_DEREF
      | Some sq \<Rightarrow>
          (case alloc_round QMEMPOOL_BULK [] k of
             (Inl elems, k') \<Rightarrow>
               (case ring_queue_mp_enqueue_bulk sq elems
                        (bulk_count (int (length elems) - 1)) of
                  None \<Rightarrow> Inl BUG
                | Some sq' \<Rightarrow> Inr (Some e, pool\<lparr>sharedq := Some sq'\<rparr>, k'))
           | (Inr elems, k') \<Rightarrow>
               (case ring_queue_mp_enqueue_bulk sq elems QMEMPOOL_BULK of
                  None \<Rightarrow> Inl BUG
                | Some sq' \<Rightarrow> refill_rounds i e (pool\<lparr>sharedq := Some sq'\<rparr>) k')))"

text \<open>
  \<open>__qmempool_alloc_from_slab\<close>: one element for the caller, NULL when the slab has
  none; then the refill rounds.
\<close>

definition qmempool_alloc_from_slab ::
  "qmempool \<Rightarrow> nat \<Rightarrow> kernel \<Rightarrow> fault + (elem option \<times> qmempool \<times> kernel)" where
  "qmempool_alloc_from_slab pool flags k =
     (case kmem_cache_alloc k of
        (None, k') \<Rightarrow> Inr (None, pool, k')
      | (Some e, k') \<Rightarrow> refill_rounds QMEMPOOL_REFILL_MULTIPLIER e pool k')"




text \<open>
  Modelled from the spec: the entry point \<open>__qmempool_alloc_node\<close> is an inline function
  of the header \<open>linux/qmempool.h\<close>, which is not part of the sources. Sections 4.3 to
  4.5 give it: a single dequeue from the local queue of the calling CPU \<open>c\<close>; on empty
  the refill from the shared queue, which counts in \<open>refill_cnt\<close> when it succeeds; when
  that fails too, the allocation from the slab.
\<close>

definition qmempool_alloc_node ::
  "qmempool \<Rightarrow> nat \<Rightarrow> nat \<Rightarrow> kernel \<Rightarrow> fault + (elem option \<times> qmempool \<times> kernel)" where
  "qmempool_alloc_node pool flags c k =
     (case percpu pool of
        None \<Rightarrow> Inl NULL_DEREF
      | Some cpus \<Rightarrow>
          if length cpus \<le> c then Inl NULL_DEREF
          else
            (case localq (cpus ! c) of
               None \<Rightarrow> Inl NULL_DEREF
             | Some lq \<Rightarrow>
                 (case ring_queue_dequeue lq of
                    Some (e, lq') \<Rightarrow>
                      Inr (Some e,
                           pool\<lparr>percpu := Some (cpus[c := (cpus ! c)\<lparr>localq := Some lq'\<rparr>])\<rparr>, k)
                  | None \<Rightarrow>
                      (case qmempool_alloc_from_sharedq pool flags lq of
                         Inl f \<Rightarrow> Inl f
                       | Inr (Some e, pool', lq') \<Rightarrow>
                           Inr (Some e,
                                pool'\<lparr>percpu := Some (cpus[c := (cpus ! c)
                                          \<lparr>localq := Some lq',
                                           refill_cnt := refill_cnt (cpus ! c) + 1\<rparr>])\<rparr>, k)
                       | Inr (None, pool', lq') \<Rightarrow>
                           qmempool_alloc_from_slab pool' flags k))))"

subsection \<open>Observations and example states\<close>

text \<open>
  A power of two in the usual sense. The exponent is at most the number itself, so the
  bound loses nothing (lemma \<open>is_power_of_two_iff\<close> below).
\<close>

definition is_power_of_two :: "nat \<Rightarrow> bool" where
  "is_power_of_two n = (\<exists>i\<le>n. n = 2 ^ i)"

text \<open>The elements the shared queue and the local queue of CPU \<open>c\<close> hold.\<close>

definition shared_objs :: "qmempool \<Rightarrow> elem list" where
  "shared_objs pool = (case sharedq pool of None \<Rightarrow> [] | Some q \<Rightarrow> rq_objs q)"

definition local_objs :: "qmempool \<Rightarrow> nat \<Rightarrow> elem list" where
  "local_objs pool c =
     (case percpu pool of
        None \<Rightarrow> []
      | Some cpus \<Rightarrow>
          if length cpus \<le> c then []
          else (case localq (cpus ! c) of None \<Rightarrow> [] | Some q \<Rightarrow> rq_objs q))"

text \<open>
  Example states: a kernel with one possible CPU and the given plans, and the pool that
  \<open>qmempool_create(16, 64, 0, kmem, 0)\<close> builds there, with the given contents of its
  shared and its local queue.
\<close>

definition ex_kernel :: "elem option list \<Rightarrow> bool list \<Rightarrow> kernel" where
  "ex_kernel plan mplan =
     \<lparr>nr_cpus = 1, slab_plan = plan, slab_allocs = 0, slab_frees = [],
      mem_plan = mplan, mem_allocs = 0, mem_frees = 0\<rparr>"

definition ex_ring :: "nat \<Rightarrow> elem list \<Rightarrow> ring_queue" where
  "ex_ring sz objs = \<lparr>rq_size = sz, rq_objs = objs\<rparr>"

definition ex_pool :: "elem list \<Rightarrow> elem list \<Rightarrow> qmempool" where
  "ex_pool shared local =
     \<lparr>kmem = Some 7, gfp_mask = 0, sharedq = Some (ex_ring 64 shared), prealloc = 0,
      percpu = Some [\<lparr>localq = Some (ex_ring 16 local), refill_cnt = 0, full_cnt = 0,
                      owner_cpu = - 1\<rparr>]\<rparr>"

section \<open>Properties\<close>

lemmas ex_defs = ex_kernel_def ex_ring_def ex_pool_def shared_objs_def local_objs_def
  QMEMPOOL_BULK_def QMEMPOOL_REFILL_MULTIPLIER_def

subsection \<open>Powers of two and the macro POWEROF2\<close>

lemma and_pred_zero_nat:
  fixes n :: nat
  shows "0 < n \<Longrightarrow> n AND (n - 1) = 0 \<Longrightarrow> \<exists>i. n = 2 ^ i"
proof (induction n rule: less_induct)
  case (less n)
  show ?case
  proof (cases "even n")
    case True
    then obtain m where m: "n = 2 * m" by (auto elim: evenE)
    with less.prems have mpos: "0 < m" by simp
    have pred: "n - 1 = 2 * (m - 1) + 1" using m mpos by simp
    have "n AND (n - 1) = 2 * (m AND (m - 1))"
      unfolding pred unfolding m
      by (simp add: and_nat_rec [of "2 * m", unfolded even_iff_mod_2_eq_zero] )
    with less.prems have "m AND (m - 1) = 0" by simp
    moreover have "m < n" using m mpos by simp
    ultimately obtain i where "m = 2 ^ i" using less.IH mpos by blast
    then have "n = 2 ^ Suc i" using m by simp
    then show ?thesis by blast
  next
    case False
    then obtain m where m: "n = 2 * m + 1" by (auto elim: oddE)
    have "n AND (n - 1) = 2 * m"
      unfolding m by (simp add: and_nat_rec [of "Suc (2 * m)" "2 * m"])
    with less.prems have "m = 0" by simp
    then have "n = 2 ^ 0" using m by simp
    then show ?thesis by blast
  qed
qed

lemma is_power_of_two_iff: "is_power_of_two n \<longleftrightarrow> (\<exists>i. n = 2 ^ i)"
proof
  assume "\<exists>i. n = 2 ^ i"
  then obtain i where i: "n = 2 ^ i" by blast
  have "i < (2::nat) ^ i" by (rule less_exp)
  then have "i \<le> n" using i by simp
  with i show "is_power_of_two n" unfolding is_power_of_two_def by blast
qed (auto simp: is_power_of_two_def)

lemma POWEROF2_unat:
  assumes "POWEROF2 x" "x \<noteq> 0"
  shows "is_power_of_two (unat x)"
proof -
  have "unat (x AND (x - 1)) = unat x AND (unat x - 1)"
    using assms(2) by (simp add: unsigned_and_eq unat_minus_one)
  moreover have "unat (x AND (x - 1)) = 0"
    using assms(1) by (simp add: POWEROF2_def)
  moreover have "0 < unat x" using assms(2) by (simp add: unat_gt_0)
  ultimately have "\<exists>i. unat x = 2 ^ i" using and_pred_zero_nat by simp
  then show ?thesis by (simp add: is_power_of_two_iff)
qed

lemma not_power_of_two_rejected:
  assumes "\<not> is_power_of_two (unat x)"
  shows "x = 0 \<or> \<not> POWEROF2 x"
  using assms POWEROF2_unat by blast

lemma not_power_of_two_24: "\<not> is_power_of_two 24"
proof
  assume "is_power_of_two 24"
  then obtain i where i: "(24::nat) = 2 ^ i" by (auto simp: is_power_of_two_def)
  have "i < 5"
  proof (rule ccontr)
    assume "\<not> i < 5"
    then have "(2::nat) ^ 5 \<le> 2 ^ i" by (intro power_increasing) auto
    with i show False by simp
  qed
  then have "i \<in> {0, 1, 2, 3, 4}" by auto
  with i show False by auto
qed

subsection \<open>The loops\<close>


lemma drain_queue_eq:
  "drain_queue q k = (q\<lparr>rq_objs := []\<rparr>, k\<lparr>slab_frees := slab_frees k @ rq_objs q\<rparr>)"
proof (induction "rq_objs q" arbitrary: q k)
  case Nil
  then show ?case
    by (subst drain_queue.simps) (simp add: ring_queue_dequeue_def)
next
  case (Cons e es)
  have "rq_objs q = e # es" using Cons.hyps(2) by simp
  moreover have "es = rq_objs (q\<lparr>rq_objs := es\<rparr>)" by simp
  ultimately show ?case
    using Cons.hyps(1) [of "q\<lparr>rq_objs := es\<rparr>" "kmem_cache_free e k"]
    by (subst drain_queue.simps) (simp add: ring_queue_dequeue_def kmem_cache_free_def)
qed

lemma alloc_round_ok:
  "slab_plan k = map Some xs @ rest \<Longrightarrow> length xs = n \<Longrightarrow>
   alloc_round n acc k =
     (Inr (acc @ xs), k\<lparr>slab_plan := rest, slab_allocs := slab_allocs k + n\<rparr>)"
proof (induction n arbitrary: xs acc k)
  case 0
  then show ?case by simp
next
  case (Suc n)
  then obtain x xs' where xs: "xs = x # xs'" "length xs' = n"
    by (cases xs) auto
  have step: "kmem_cache_alloc k =
      (Some x, k\<lparr>slab_plan := map Some xs' @ rest, slab_allocs := slab_allocs k + 1\<rparr>)"
    using Suc.prems(1) xs by (simp add: kmem_cache_alloc_def)
  show ?case
    using Suc.IH [of "k\<lparr>slab_plan := map Some xs' @ rest, slab_allocs := slab_allocs k + 1\<rparr>" xs' "acc @ [x]"]
      xs step by simp
qed

lemma alloc_round_fail:
  "slab_plan k = map Some xs @ None # rest \<Longrightarrow> length xs < n \<Longrightarrow>
   alloc_round n acc k =
     (Inl (acc @ xs), k\<lparr>slab_plan := rest, slab_allocs := slab_allocs k + length xs + 1\<rparr>)"
proof (induction n arbitrary: xs acc k)
  case 0
  then show ?case by simp
next
  case (Suc n)
  show ?case
  proof (cases xs)
    case Nil
    then show ?thesis using Suc.prems by (simp add: kmem_cache_alloc_def)
  next
    case (Cons x xs')
    have step: "kmem_cache_alloc k =
        (Some x, k\<lparr>slab_plan := map Some xs' @ None # rest, slab_allocs := slab_allocs k + 1\<rparr>)"
      using Suc.prems(1) Cons by (simp add: kmem_cache_alloc_def)
    show ?thesis
      using Suc.IH [of "k\<lparr>slab_plan := map Some xs' @ None # rest, slab_allocs := slab_allocs k + 1\<rparr>" xs' "acc @ [x]"]
        Cons step Suc.prems(2) by simp
  qed
qed

lemma refill_rounds_ok:
  "sharedq pool = Some sq \<Longrightarrow> slab_plan k = map Some xs @ rest \<Longrightarrow>
   length xs = i * QMEMPOOL_BULK \<Longrightarrow>
   length (rq_objs sq) + i * QMEMPOOL_BULK \<le> rq_size sq - 1 \<Longrightarrow>
   refill_rounds i e pool k =
     Inr (Some e, pool\<lparr>sharedq := Some (sq\<lparr>rq_objs := rq_objs sq @ xs\<rparr>)\<rparr>,
          k\<lparr>slab_plan := rest, slab_allocs := slab_allocs k + i * QMEMPOOL_BULK\<rparr>)"
proof (induction i arbitrary: pool sq k xs)
  case 0
  then show ?case by simp
next
  case (Suc i)
  define ys where "ys = take QMEMPOOL_BULK xs"
  define zs where "zs = drop QMEMPOOL_BULK xs"
  have xs: "xs = ys @ zs" and ly: "length ys = QMEMPOOL_BULK" and lz: "length zs = i * QMEMPOOL_BULK"
    using Suc.prems(3) by (simp_all add: ys_def zs_def)
  let ?k1 = "k\<lparr>slab_plan := map Some zs @ rest, slab_allocs := slab_allocs k + QMEMPOOL_BULK\<rparr>"
  let ?sq1 = "sq\<lparr>rq_objs := rq_objs sq @ ys\<rparr>"
  have round: "alloc_round QMEMPOOL_BULK [] k = (Inr ys, ?k1)"
    using alloc_round_ok [of k ys "map Some zs @ rest" QMEMPOOL_BULK "[]"] Suc.prems(2) xs ly
    by simp
  have enq: "ring_queue_mp_enqueue_bulk sq ys QMEMPOOL_BULK = Some ?sq1"
    using Suc.prems(4) ly
    by (simp add: ring_queue_mp_enqueue_bulk_def ring_queue_enqueue_bulk_def)
  have rest: "refill_rounds i e (pool\<lparr>sharedq := Some ?sq1\<rparr>) ?k1 =
     Inr (Some e, pool\<lparr>sharedq := Some ?sq1\<rparr>\<lparr>sharedq := Some (?sq1\<lparr>rq_objs := rq_objs ?sq1 @ zs\<rparr>)\<rparr>,
          ?k1\<lparr>slab_plan := rest, slab_allocs := slab_allocs ?k1 + i * QMEMPOOL_BULK\<rparr>)"
    using Suc.prems(4) ly lz
    by (intro Suc.IH) simp_all
  show ?case
    using Suc.prems(1) round enq rest xs by simp
qed

lemma refill_rounds_frame:
  "refill_rounds i e pool k = Inr (r, pool', k') \<Longrightarrow>
   r = Some e \<and> pool' = pool\<lparr>sharedq := sharedq pool'\<rparr>"
proof (induction i arbitrary: pool k)
  case 0
  then show ?case by simp
next
  case (Suc i)
  from Suc.prems obtain sq where sq: "sharedq pool = Some sq"
    by (auto split: option.splits)
  obtain res k1 where round: "alloc_round QMEMPOOL_BULK [] k = (res, k1)"
    by (cases "alloc_round QMEMPOOL_BULK [] k")
  show ?case
  proof (cases res)
    case (Inl elems)
    with Suc.prems sq round show ?thesis
      by (auto split: option.splits)
  next
    case (Inr elems)
    with Suc.prems sq round obtain sq' where
      "refill_rounds i e (pool\<lparr>sharedq := Some sq'\<rparr>) k1 = Inr (r, pool', k')"
      by (auto split: option.splits)
    from Suc.IH [OF this] show ?thesis by simp
  qed
qed


lemma bulk_count_pred:
  assumes "0 < j" "j < 2 ^ 32"
  shows "bulk_count (int j - 1) = j - 1"
proof -
  have eq: "int j - 1 = int (j - 1)" using assms(1) by simp
  have "bulk_count (int j - 1) = unat (word_of_int (int (j - 1)) :: 32 word)"
    unfolding bulk_count_def eq ..
  also have "\<dots> = unat (word_of_nat (j - 1) :: 32 word)"
    by (simp only: of_int_of_nat_eq)
  also have "\<dots> = (j - 1) mod 2 ^ 32"
    by (simp only: unat_of_nat) simp
  also have "\<dots> = j - 1" using assms(2) by (intro mod_less) arith
  finally show ?thesis .
qed

lemma refill_round_failure:
  assumes "sharedq pool = Some sq"
    and "slab_plan k = map Some xs @ None # rest"
    and "0 < length xs" "length xs < QMEMPOOL_BULK"
    and "length (rq_objs sq) + length xs \<le> rq_size sq"
  shows "refill_rounds (Suc i) e pool k =
     Inr (Some e, pool\<lparr>sharedq := Some (sq\<lparr>rq_objs := rq_objs sq @ butlast xs\<rparr>)\<rparr>,
          k\<lparr>slab_plan := rest, slab_allocs := slab_allocs k + length xs + 1\<rparr>)"
proof -
  have round: "alloc_round QMEMPOOL_BULK [] k =
     (Inl xs, k\<lparr>slab_plan := rest, slab_allocs := slab_allocs k + length xs + 1\<rparr>)"
    using alloc_round_fail [OF assms(2,4), of "[]"] by simp
  have cnt: "bulk_count (int (length xs) - 1) = length xs - 1"
    using assms(3,4) by (intro bulk_count_pred) (simp_all add: QMEMPOOL_BULK_def)
  have room: "length (rq_objs sq) + (length xs - 1) \<le> rq_size sq - 1"
    using assms(3,5) by arith
  have enq: "ring_queue_mp_enqueue_bulk sq xs (length xs - 1) =
      Some (sq\<lparr>rq_objs := rq_objs sq @ butlast xs\<rparr>)"
    using room
    by (simp add: ring_queue_mp_enqueue_bulk_def ring_queue_enqueue_bulk_def butlast_conv_take)
  show ?thesis using assms(1) round cnt enq by simp
qed

lemma destroy_sharedq_eq:
  "destroy_sharedq q k = Inr (k\<lparr>slab_frees := slab_frees k @ rq_objs q, mem_frees := mem_frees k + 1\<rparr>)"
  by (simp add: destroy_sharedq_def drain_queue_eq ring_queue_empty_def ring_queue_free_def
      mem_release_def)

lemma bulk_count_minus_one: "bulk_count (- 1) = 2 ^ 32 - 1"
  by (simp add: bulk_count_def unsigned_minus_1_eq_mask mask_eq_exp_minus_1)

lemma refill_round_failure_first:
  assumes "sharedq pool = Some sq"
    and "slab_plan k = None # rest"
    and "rq_size sq < 2 ^ 32"
  shows "refill_rounds (Suc i) e pool k = Inl BUG"
proof -
  have round: "alloc_round QMEMPOOL_BULK [] k =
     (Inl [], k\<lparr>slab_plan := rest, slab_allocs := slab_allocs k + 1\<rparr>)"
    using alloc_round_fail [of k "[]" rest QMEMPOOL_BULK "[]"] assms(2)
    by (simp add: QMEMPOOL_BULK_def)
  have "\<not> length (rq_objs sq) + (2 ^ 32 - 1) \<le> rq_size sq - 1"
    using assms(3) by simp
  then have enq: "ring_queue_mp_enqueue_bulk sq [] (bulk_count (- 1)) = None"
    by (simp add: ring_queue_mp_enqueue_bulk_def ring_queue_enqueue_bulk_def
        bulk_count_minus_one)
  show ?thesis using assms(1) round enq by simp
qed

lemma destroy_percpu_ok:
  assumes "\<forall>cpu \<in> set cpus. localq cpu \<noteq> None"
  shows "destroy_percpu cpus k =
     Inr (k\<lparr>slab_frees := slab_frees k @ concat (map (\<lambda>cpu. rq_objs (the (localq cpu))) cpus),
            mem_frees := mem_frees k + length cpus\<rparr>)"
  using assms
proof (induction cpus arbitrary: k)
  case Nil
  then show ?case by simp
next
  case (Cons cpu cpus)
  then obtain q where q: "localq cpu = Some q" by auto
  have rest: "\<forall>cpu \<in> set cpus. localq cpu \<noteq> None" using Cons.prems by simp
  show ?case
    using q Cons.IH [OF rest]
    by (simp add: drain_queue_eq ring_queue_empty_def ring_queue_free_def mem_release_def)
qed

lemma destroy_percpu_null_localq:
  assumes "cpu \<in> set cpus" "localq cpu = None"
  shows "destroy_percpu cpus k = Inl NULL_DEREF"
  using assms
proof (induction cpus arbitrary: k)
  case Nil
  then show ?case by simp
next
  case (Cons c cpus)
  show ?case
  proof (cases "localq c")
    case None
    then show ?thesis by simp
  next
    case (Some q)
    with Cons.prems have "cpu \<in> set cpus" by auto
    from Cons.IH [OF this Cons.prems(2)] Some show ?thesis
      by (simp add: drain_queue_eq ring_queue_empty_def)
  qed
qed

lemma prealloc_loop_ok:
  "sharedq pool = Some sq \<Longrightarrow> slab_plan k = map Some xs @ rest \<Longrightarrow> length xs = n \<Longrightarrow>
   length (rq_objs sq) + n \<le> rq_size sq - 1 \<Longrightarrow>
   prealloc_loop n pool k =
     Inr (Some (pool\<lparr>sharedq := Some (sq\<lparr>rq_objs := rq_objs sq @ xs\<rparr>)\<rparr>),
          k\<lparr>slab_plan := rest, slab_allocs := slab_allocs k + n\<rparr>)"
proof (induction n arbitrary: pool sq k xs)
  case 0
  then show ?case by simp
next
  case (Suc n)
  then obtain x xs' where xs: "xs = x # xs'" "length xs' = n"
    by (cases xs) auto
  let ?k1 = "k\<lparr>slab_plan := map Some xs' @ rest, slab_allocs := slab_allocs k + 1\<rparr>"
  let ?sq1 = "sq\<lparr>rq_objs := rq_objs sq @ [x]\<rparr>"
  have step: "kmem_cache_alloc k = (Some x, ?k1)"
    using Suc.prems(2) xs by (simp add: kmem_cache_alloc_def)
  have enq: "ring_queue_enqueue sq x = Some ?sq1"
    using Suc.prems(4) by (simp add: ring_queue_enqueue_def)
  have rest: "prealloc_loop n (pool\<lparr>sharedq := Some ?sq1\<rparr>) ?k1 =
     Inr (Some (pool\<lparr>sharedq := Some ?sq1\<rparr>\<lparr>sharedq := Some (?sq1\<lparr>rq_objs := rq_objs ?sq1 @ xs'\<rparr>)\<rparr>),
          ?k1\<lparr>slab_plan := rest, slab_allocs := slab_allocs ?k1 + n\<rparr>)"
    using Suc.prems(4) xs by (intro Suc.IH) simp_all
  show ?case using Suc.prems(1) step enq rest xs by simp
qed

lemma prealloc_loop_fail:
  "sharedq pool = Some sq \<Longrightarrow> percpu pool = None \<Longrightarrow>
   slab_plan k = map Some xs @ None # rest \<Longrightarrow> length xs < n \<Longrightarrow>
   length (rq_objs sq) + n \<le> rq_size sq - 1 \<Longrightarrow>
   prealloc_loop n pool k =
     Inr (None,
          k\<lparr>slab_plan := rest, slab_allocs := slab_allocs k + length xs + 1,
            slab_frees := slab_frees k @ rq_objs sq @ xs, mem_frees := mem_frees k + 2\<rparr>)"
proof (induction n arbitrary: pool sq k xs)
  case 0
  then show ?case by simp
next
  case (Suc n)
  show ?case
  proof (cases xs)
    case Nil
    have step: "kmem_cache_alloc k = (None, k\<lparr>slab_plan := rest, slab_allocs := slab_allocs k + 1\<rparr>)"
      using Suc.prems(3) Nil by (simp add: kmem_cache_alloc_def)
    show ?thesis
      using Suc.prems(1,2) step Nil
      by (simp add: destroy_return_NULL_def qmempool_destroy_def destroy_sharedq_eq kfree_def
          mem_release_def)
  next
    case (Cons x xs')
    let ?k1 = "k\<lparr>slab_plan := map Some xs' @ None # rest, slab_allocs := slab_allocs k + 1\<rparr>"
    let ?sq1 = "sq\<lparr>rq_objs := rq_objs sq @ [x]\<rparr>"
    have step: "kmem_cache_alloc k = (Some x, ?k1)"
      using Suc.prems(3) Cons by (simp add: kmem_cache_alloc_def)
    have enq: "ring_queue_enqueue sq x = Some ?sq1"
      using Suc.prems(5) by (simp add: ring_queue_enqueue_def)
    have rest: "prealloc_loop n (pool\<lparr>sharedq := Some ?sq1\<rparr>) ?k1 =
       Inr (None,
            ?k1\<lparr>slab_plan := rest, slab_allocs := slab_allocs ?k1 + length xs' + 1,
               slab_frees := slab_frees ?k1 @ rq_objs ?sq1 @ xs', mem_frees := mem_frees ?k1 + 2\<rparr>)"
      using Suc.prems(2,4,5) Cons by (intro Suc.IH) simp_all
    show ?thesis using Suc.prems(1) step enq rest Cons by simp
  qed
qed

lemma create_checks_pass:
  assumes "QMEMPOOL_BULK \<le> unat localq_sz"
    and "QMEMPOOL_BULK * QMEMPOOL_REFILL_MULTIPLIER < unat sharedq_sz"
    and "POWEROF2 localq_sz" "POWEROF2 sharedq_sz"
    and "nprealloc < sharedq_sz" and "kmem_ptr = Some h"
  shows "qmempool_create localq_sz sharedq_sz nprealloc kmem_ptr flags k =
     (case kzalloc_pool k of
           (None, k1) \<Rightarrow> Inr (None, k1)
         | (Some pool0, k1) \<Rightarrow>
             (let pool1 = pool0\<lparr>kmem := kmem_ptr, gfp_mask := flags\<rparr> in
              case ring_queue_create (unat sharedq_sz) k1 of
                (None, k2) \<Rightarrow> destroy_return_NULL (pool1\<lparr>sharedq := None\<rparr>) k2
              | (Some q, k2) \<Rightarrow>
                  (case prealloc_loop (unat nprealloc)
                          (pool1\<lparr>sharedq := Some q, prealloc := nprealloc\<rparr>) k2 of
                     Inl f \<Rightarrow> Inl f
                   | Inr (None, k3) \<Rightarrow> Inr (None, k3)
                   | Inr (Some pool2, k3) \<Rightarrow>
                       (case alloc_percpu k3 of
                          (None, k4) \<Rightarrow> destroy_return_NULL (pool2\<lparr>percpu := None\<rparr>) k4
                        | (Some tbl, k4) \<Rightarrow>
                            create_localqs (length tbl) 0 (unat localq_sz)
                              (pool2\<lparr>percpu := Some tbl\<rparr>) k4))))"
proof -
  have "\<not> nprealloc \<ge> sharedq_sz" using assms(5) by simp
  then show ?thesis
    unfolding qmempool_create_def using assms(1-4,6) by simp
qed

lemma create_localqs_failure:
  assumes "percpu pool = Some cpus" "j + n \<le> length cpus"
    and "mem_plan k = replicate m True @ False # mp" "m < n"
  shows "create_localqs n j sz pool k = Inl NULL_DEREF"
  using assms
proof (induction n arbitrary: j pool cpus k m)
  case 0
  then show ?case by simp
next
  case (Suc n)
  have j: "j < length cpus" using Suc.prems(2) by simp
  show ?case
  proof (cases m)
    case 0
    let ?cpus = "cpus[j := (cpus ! j)\<lparr>localq := None\<rparr>]"
    have "?cpus ! j \<in> set ?cpus" using j by (intro nth_mem) simp
    moreover have "localq (?cpus ! j) = None" using j by simp
    ultimately have "destroy_percpu ?cpus (k\<lparr>mem_plan := mp\<rparr>) = Inl NULL_DEREF"
      by (rule destroy_percpu_null_localq)
    then show ?thesis
      using Suc.prems(1,3) 0
      by (simp add: ring_queue_create_def mem_alloc_def destroy_return_NULL_def
          qmempool_destroy_def)
  next
    case (Suc m')
    let ?k1 = "k\<lparr>mem_plan := replicate m' True @ False # mp, mem_allocs := mem_allocs k + 1\<rparr>"
    let ?cpus = "cpus[j := (cpus ! j)\<lparr>localq := Some \<lparr>rq_size = sz, rq_objs = []\<rparr>,
                    refill_cnt := 0, full_cnt := 0, owner_cpu := - 1\<rparr>]"
    have "create_localqs n (Suc j) sz (pool\<lparr>percpu := Some ?cpus\<rparr>) ?k1 = Inl NULL_DEREF"
      using Suc.prems(2,4) Suc by (intro Suc.IH [where cpus = ?cpus and m = m']) simp_all
    then show ?thesis
      using Suc.prems(1,3) Suc
      by (simp add: ring_queue_create_def mem_alloc_def)
  qed
qed

lemma tl_eq_map_nth: "tl xs = map (\<lambda>i. xs ! i) [1..<length xs]"
proof (cases xs)
  case Nil
  then show ?thesis by simp
next
  case (Cons x ys)
  have "[1..<length xs] = map Suc [0..<length ys]"
    unfolding Cons by (simp only: map_Suc_upt list.size One_nat_def) simp
  then have "map (\<lambda>i. xs ! i) [1..<length xs] = map (\<lambda>i. ys ! i) [0..<length ys]"
    unfolding Cons by (simp only: map_map o_def nth_Cons_Suc)
  also have "\<dots> = ys" by (rule map_nth)
  finally show ?thesis using Cons by simp
qed

lemma refill_rounds_prefix:
  "sharedq pool = Some sq \<Longrightarrow> slab_plan k = map Some xs @ rest \<Longrightarrow>
   length xs = i * QMEMPOOL_BULK \<Longrightarrow>
   length (rq_objs sq) + i * QMEMPOOL_BULK \<le> rq_size sq - 1 \<Longrightarrow>
   refill_rounds (i + n) e pool k =
     refill_rounds n e (pool\<lparr>sharedq := Some (sq\<lparr>rq_objs := rq_objs sq @ xs\<rparr>)\<rparr>)
       (k\<lparr>slab_plan := rest, slab_allocs := slab_allocs k + i * QMEMPOOL_BULK\<rparr>)"
proof (induction i arbitrary: pool sq k xs)
  case 0
  then have "pool\<lparr>sharedq := Some (sq\<lparr>rq_objs := rq_objs sq @ xs\<rparr>)\<rparr> = pool"
    and "k\<lparr>slab_plan := rest, slab_allocs := slab_allocs k + 0 * QMEMPOOL_BULK\<rparr> = k"
    by simp_all
  then show ?case by simp
next
  case (Suc i)
  define ys where "ys = take QMEMPOOL_BULK xs"
  define zs where "zs = drop QMEMPOOL_BULK xs"
  have xs: "xs = ys @ zs" and ly: "length ys = QMEMPOOL_BULK" and lz: "length zs = i * QMEMPOOL_BULK"
    using Suc.prems(3) by (simp_all add: ys_def zs_def)
  let ?k1 = "k\<lparr>slab_plan := map Some zs @ rest, slab_allocs := slab_allocs k + QMEMPOOL_BULK\<rparr>"
  let ?sq1 = "sq\<lparr>rq_objs := rq_objs sq @ ys\<rparr>"
  have round: "alloc_round QMEMPOOL_BULK [] k = (Inr ys, ?k1)"
    using alloc_round_ok [of k ys "map Some zs @ rest" QMEMPOOL_BULK "[]"] Suc.prems(2) xs ly
    by simp
  have enq: "ring_queue_mp_enqueue_bulk sq ys QMEMPOOL_BULK = Some ?sq1"
    using Suc.prems(4) ly
    by (simp add: ring_queue_mp_enqueue_bulk_def ring_queue_enqueue_bulk_def)
  have rest: "refill_rounds (i + n) e (pool\<lparr>sharedq := Some ?sq1\<rparr>) ?k1 =
     refill_rounds n e (pool\<lparr>sharedq := Some ?sq1\<rparr>\<lparr>sharedq := Some (?sq1\<lparr>rq_objs := rq_objs ?sq1 @ zs\<rparr>)\<rparr>)
          (?k1\<lparr>slab_plan := rest, slab_allocs := slab_allocs ?k1 + i * QMEMPOOL_BULK\<rparr>)"
    using Suc.prems(4) ly lz
    by (intro Suc.IH) simp_all
  show ?case
    using Suc.prems(1) round enq rest xs by (simp add: add.assoc)
qed

lemma alloc_from_slab_NULL:
  assumes "qmempool_alloc_from_slab pool flags k = Inr (None, pool', k')"
  shows "fst (kmem_cache_alloc k) = None"
proof (cases "kmem_cache_alloc k")
  case (Pair r k1)
  show ?thesis
  proof (cases r)
    case None
    with Pair show ?thesis by simp
  next
    case (Some e)
    with Pair assms have "refill_rounds QMEMPOOL_REFILL_MULTIPLIER e pool k1 = Inr (None, pool', k')"
      by (simp add: qmempool_alloc_from_slab_def)
    from refill_rounds_frame [OF this] show ?thesis by simp
  qed
qed

subsection \<open>Allocation from an empty pool\<close>

text \<open>
  Claim C1, as the code has it. Let the shared queue and the local queue of the calling
  CPU be empty, let the shared queue be larger than
  \<open>QMEMPOOL_BULK * QMEMPOOL_REFILL_MULTIPLIER\<close> (what \<open>qmempool_create\<close> requires), and let
  the slab hand out \<open>1 + QMEMPOOL_REFILL_MULTIPLIER * QMEMPOOL_BULK\<close> distinct elements.
  Then one allocation calls \<open>kmem_cache_alloc\<close> that many times (at least once), returns
  the first element, leaves exactly \<open>QMEMPOOL_REFILL_MULTIPLIER * QMEMPOOL_BULK\<close> elements in
  the shared queue and the local queue still empty, and the returned element is none of
  the elements the pool holds. The slab path does not refill the local queue; the
  comment at its end leaves that to the next allocation.
\<close>

theorem alloc_node_refill:
  assumes "percpu pool = Some cpus" "c < length cpus" "localq (cpus ! c) = Some lq"
    and "rq_objs lq = []"
    and "sharedq pool = Some sq" "rq_objs sq = []"
    and "QMEMPOOL_BULK * QMEMPOOL_REFILL_MULTIPLIER < rq_size sq"
    and "slab_plan k = map Some (e # es) @ rest"
    and "length es = QMEMPOOL_REFILL_MULTIPLIER * QMEMPOOL_BULK"
    and "distinct (e # es)"
  shows "\<exists>pool' k'.
           qmempool_alloc_node pool flags c k = Inr (Some e, pool', k')
         \<and> slab_allocs k' = slab_allocs k + 1 + QMEMPOOL_REFILL_MULTIPLIER * QMEMPOOL_BULK
         \<and> slab_allocs k + 1 \<le> slab_allocs k'
         \<and> shared_objs pool' = es
         \<and> length (shared_objs pool') = QMEMPOOL_REFILL_MULTIPLIER * QMEMPOOL_BULK
         \<and> local_objs pool' c = []
         \<and> e \<notin> set (shared_objs pool') \<union> set (local_objs pool' c)"
proof -
  let ?k1 = "k\<lparr>slab_plan := map Some es @ rest, slab_allocs := slab_allocs k + 1\<rparr>"
  let ?pool' = "pool\<lparr>sharedq := Some (sq\<lparr>rq_objs := rq_objs sq @ es\<rparr>)\<rparr>"
  let ?k' = "?k1\<lparr>slab_plan := rest,
                  slab_allocs := slab_allocs ?k1 + QMEMPOOL_REFILL_MULTIPLIER * QMEMPOOL_BULK\<rparr>"
  have deq: "ring_queue_dequeue lq = None"
    using assms(4) by (simp add: ring_queue_dequeue_def)
  have shq: "qmempool_alloc_from_sharedq pool flags lq = Inr (None, pool, lq)"
    using assms(5,6)
    by (simp add: qmempool_alloc_from_sharedq_def ring_queue_mc_dequeue_bulk_def
        ring_queue_dequeue_bulk_def QMEMPOOL_BULK_def)
  have first: "kmem_cache_alloc k = (Some e, ?k1)"
    using assms(8) by (simp add: kmem_cache_alloc_def)
  have rounds: "refill_rounds QMEMPOOL_REFILL_MULTIPLIER e pool ?k1 = Inr (Some e, ?pool', ?k')"
    using assms(5,6,7,9) by (intro refill_rounds_ok) (simp_all add: mult.commute)
  have slab: "qmempool_alloc_from_slab pool flags k = Inr (Some e, ?pool', ?k')"
    using first rounds by (simp add: qmempool_alloc_from_slab_def)
  have res: "qmempool_alloc_node pool flags c k = Inr (Some e, ?pool', ?k')"
    using assms(1,2,3) deq shq slab by (simp add: qmempool_alloc_node_def)
  have "shared_objs ?pool' = es" using assms(6) by (simp add: shared_objs_def)
  moreover have "local_objs ?pool' c = []"
    using assms(1,2,3,4) by (simp add: local_objs_def)
  moreover have "e \<notin> set es" using assms(10) by simp
  ultimately show ?thesis using res assms(9) by simp
qed

text \<open>
  The theorem of claim C1 at the pool of \<open>qmempool_create(16, 64, 0, ...)\<close> and a slab
  that hands out the elements 1 to 33.
\<close>

theorem alloc_node_refill_witness:
  "qmempool_alloc_node (ex_pool [] []) 0 0 (ex_kernel (map Some [1..<34]) [])
     = Inr (Some 1, ex_pool [2..<34] [], (ex_kernel [] [])\<lparr>slab_allocs := 33\<rparr>)
   \<and> shared_objs (ex_pool [2..<34] []) = [2..<34]
   \<and> local_objs (ex_pool [2..<34] []) 0 = []"
proof -
  have len: "length [2..<34::nat] = QMEMPOOL_REFILL_MULTIPLIER * QMEMPOOL_BULK"
    by (simp add: ex_defs)
  have plan: "slab_plan (ex_kernel (map Some [1..<34]) []) = map Some (1 # [2..<34]) @ []"
    by code_simp
  have cap: "QMEMPOOL_BULK * QMEMPOOL_REFILL_MULTIPLIER < rq_size (ex_ring 64 [])"
    by (simp add: ex_defs)
  have "\<exists>pool' k'.
           qmempool_alloc_node (ex_pool [] []) 0 0 (ex_kernel (map Some [1..<34]) []) = Inr (Some 1, pool', k')
         \<and> slab_allocs k' = slab_allocs (ex_kernel (map Some [1..<34]) []) + 1 + QMEMPOOL_REFILL_MULTIPLIER * QMEMPOOL_BULK
         \<and> slab_allocs (ex_kernel (map Some [1..<34]) []) + 1 \<le> slab_allocs k'
         \<and> shared_objs pool' = [2..<34]
         \<and> length (shared_objs pool') = QMEMPOOL_REFILL_MULTIPLIER * QMEMPOOL_BULK
         \<and> local_objs pool' 0 = []
         \<and> 1 \<notin> set (shared_objs pool') \<union> set (local_objs pool' 0)"
    by (rule alloc_node_refill [where cpus = "[\<lparr>localq = Some (ex_ring 16 []), refill_cnt = 0, full_cnt = 0, owner_cpu = - 1\<rparr>]"
          and lq = "ex_ring 16 []" and sq = "ex_ring 64 []" and rest = "[]", OF _ _ _ _ _ _ cap plan len])
       (simp_all add: ex_pool_def ex_ring_def)
  moreover have "qmempool_alloc_node (ex_pool [] []) 0 0 (ex_kernel (map Some [1..<34]) [])
     = Inr (Some 1, ex_pool [2..<34] [], (ex_kernel [] [])\<lparr>slab_allocs := 33\<rparr>)"
    by code_simp
  ultimately show ?thesis by (auto simp: shared_objs_def local_objs_def ex_pool_def ex_ring_def)
qed

text \<open>
  Claim C1 as the specification words it expects \<open>(QMEMPOOL_REFILL_MULTIPLIER - 1) *
  QMEMPOOL_BULK = 16\<close> elements in the shared queue and \<open>QMEMPOOL_BULK - 1 = 15\<close> in the
  local queue. From the empty example pool the allocation leaves 32 and 0.
\<close>

theorem alloc_node_refill_counterexample:
  "shared_objs (ex_pool [] []) = [] \<and> local_objs (ex_pool [] []) 0 = []
   \<and> qmempool_alloc_node (ex_pool [] []) 0 0 (ex_kernel (map Some [1..<34]) [])
        = Inr (Some 1, ex_pool [2..<34] [], (ex_kernel [] [])\<lparr>slab_allocs := 33\<rparr>)
   \<and> length (shared_objs (ex_pool [2..<34] []))
        \<noteq> (QMEMPOOL_REFILL_MULTIPLIER - 1) * QMEMPOOL_BULK
   \<and> length (local_objs (ex_pool [2..<34] []) 0) \<noteq> QMEMPOOL_BULK - 1"
proof -
  have "qmempool_alloc_node (ex_pool [] []) 0 0 (ex_kernel (map Some [1..<34]) [])
     = Inr (Some 1, ex_pool [2..<34] [], (ex_kernel [] [])\<lparr>slab_allocs := 33\<rparr>)"
    by code_simp
  then show ?thesis by (simp add: ex_defs)
qed

subsection \<open>A slab failure inside a refill round\<close>

text \<open>
  Claim C2 asks that a round cut short by a failed allocation enqueues exactly the
  elements the round did allocate. The code passes the count \<open>j - 1\<close> where \<open>j\<close>
  elements, \<open>elems[0 .. j - 1]\<close>, were allocated. Here the slab gives the caller's
  element 1, then 2, 3 and 4 and then NULL: the round allocated three elements, the shared
  queue receives 2 and 3 only, and element 4 is neither enqueued nor freed nor returned.
  Lemma \<open>refill_round_failure\<close> above has the same for every round that fails after at
  least one allocation: all but the last allocated element reach the shared queue. When
  the first allocation of a round fails, the count is \<open>- 1\<close> and the \<open>BUG_ON\<close> fires
  (lemma \<open>refill_round_failure_first\<close>).
\<close>

theorem alloc_from_slab_partial_round_leak:
  "qmempool_alloc_from_slab (ex_pool [] []) 0 (ex_kernel [Some 1, Some 2, Some 3, Some 4, None] [])
     = Inr (Some 1, ex_pool [2, 3] [], (ex_kernel [] [])\<lparr>slab_allocs := 5\<rparr>)"
  by code_simp

subsection \<open>Rejected configurations\<close>

text \<open>
  Claim C3. If a capacity is not a power of two, or the local capacity is below
  \<open>QMEMPOOL_BULK\<close>, or the shared capacity is at most
  \<open>QMEMPOOL_BULK * QMEMPOOL_REFILL_MULTIPLIER\<close>, or the preallocation count is not below
  the shared capacity, or the slab cache is NULL, then \<open>qmempool_create\<close> returns NULL and
  the kernel state is the one it started from: no call of the slab, no object allocated.
  The macro \<open>POWEROF2\<close> accepts 0, which is no power of two; the two size checks before
  it reject 0.
\<close>

theorem qmempool_create_rejects:
  assumes "\<not> is_power_of_two (unat localq_sz) \<or> \<not> is_power_of_two (unat sharedq_sz)
           \<or> unat localq_sz < QMEMPOOL_BULK
           \<or> unat sharedq_sz \<le> QMEMPOOL_BULK * QMEMPOOL_REFILL_MULTIPLIER
           \<or> unat nprealloc \<ge> unat sharedq_sz
           \<or> kmem_ptr = None"
  shows "qmempool_create localq_sz sharedq_sz nprealloc kmem_ptr flags k = Inr (None, k)"
proof -
  have l0: "localq_sz = 0 \<Longrightarrow> unat localq_sz < QMEMPOOL_BULK"
    by (simp add: QMEMPOOL_BULK_def)
  have s0: "sharedq_sz = 0 \<Longrightarrow> unat sharedq_sz \<le> QMEMPOOL_BULK * QMEMPOOL_REFILL_MULTIPLIER"
    by simp
  have lp: "\<not> is_power_of_two (unat localq_sz) \<Longrightarrow> localq_sz = 0 \<or> \<not> POWEROF2 localq_sz"
    by (rule not_power_of_two_rejected)
  have sp: "\<not> is_power_of_two (unat sharedq_sz) \<Longrightarrow> sharedq_sz = 0 \<or> \<not> POWEROF2 sharedq_sz"
    by (rule not_power_of_two_rejected)
  have pre: "unat nprealloc \<ge> unat sharedq_sz \<longleftrightarrow> nprealloc \<ge> sharedq_sz"
    by (simp add: word_le_nat_alt)
  from assms l0 s0 lp sp pre show ?thesis
    unfolding qmempool_create_def by auto
qed

text \<open>
  The theorem of claim C3 at a local capacity of 24, with every other argument
  acceptable.
\<close>

theorem qmempool_create_rejects_witness:
  "\<not> is_power_of_two (unat (24 :: 32 word))
   \<and> qmempool_create 24 64 0 (Some 7) 0 (ex_kernel [Some 1] [True, True, True, True])
       = Inr (None, ex_kernel [Some 1] [True, True, True, True])"
proof -
  have h: "\<not> is_power_of_two (unat (24 :: 32 word))"
    using not_power_of_two_24 by simp
  from qmempool_create_rejects [of 24 64 0 "Some 7" 0 "ex_kernel [Some 1] [True, True, True, True]"] h
  show ?thesis by blast
qed

subsection \<open>Failure during construction\<close>

text \<open>
  Claim C4 asks that every failing construction step releases what was allocated and
  returns NULL. When the creation of a local queue fails, \<open>qmempool_destroy\<close> is called
  with the per-CPU table in place and \<open>cpu->localq\<close> NULL for that CPU and the ones after
  it; it tests \<open>pool->percpu\<close> and \<open>pool->sharedq\<close> but not \<open>cpu->localq\<close>, and hands the
  NULL to \<open>ring_queue_dequeue\<close>. Here the pool record, the shared queue and the per-CPU
  table are allocated, two elements are preallocated, and the first local queue fails.
\<close>

theorem qmempool_create_localq_failure:
  "qmempool_create 16 64 2 (Some 7) 0 (ex_kernel [Some 1, Some 2] [True, True, True, False])
     = Inl NULL_DEREF"
proof -
  have two: "unat (2 :: 32 word) = Suc (Suc 0)" by simp
  show ?thesis
    unfolding qmempool_create_def two
    by (simp add: QMEMPOOL_BULK_def QMEMPOOL_REFILL_MULTIPLIER_def POWEROF2_def Let_def
        ex_kernel_def kzalloc_pool_def mem_alloc_def ring_queue_create_def
        kmem_cache_alloc_def ring_queue_enqueue_def
        alloc_percpu_def destroy_return_NULL_def qmempool_destroy_def)
qed

text \<open>
  The arguments of that call pass every check of \<open>qmempool_create\<close>: both sizes are
  powers of two for the macro, and the call still ends in the fault.
\<close>

theorem qmempool_create_localq_failure_witness:
  "POWEROF2 16 \<and> POWEROF2 64
   \<and> qmempool_create 16 64 2 (Some 7) 0 (ex_kernel [Some 1, Some 2] [True, True, True, False])
       = Inl NULL_DEREF"
  using qmempool_create_localq_failure by (simp add: POWEROF2_def)

text \<open>
  The same for every accepted configuration and every CPU whose local queue cannot be
  created: the call ends in the fault.
\<close>

lemma create_localq_failure_faults:
  assumes "QMEMPOOL_BULK \<le> unat localq_sz"
    and "QMEMPOOL_BULK * QMEMPOOL_REFILL_MULTIPLIER < unat sharedq_sz"
    and "POWEROF2 localq_sz" "POWEROF2 sharedq_sz"
    and "nprealloc < sharedq_sz" and "kmem_ptr = Some h"
    and "mem_plan k = True # True # True # replicate m True @ False # mp" "m < nr_cpus k"
    and "slab_plan k = map Some xs @ rest" "length xs = unat nprealloc"
  shows "qmempool_create localq_sz sharedq_sz nprealloc kmem_ptr flags k = Inl NULL_DEREF"
proof -
  let ?k2 = "k\<lparr>mem_plan := True # replicate m True @ False # mp, mem_allocs := mem_allocs k + 2\<rparr>"
  let ?q = "\<lparr>rq_size = unat sharedq_sz, rq_objs = []\<rparr>"
  let ?pool = "\<lparr>kmem = kmem_ptr, gfp_mask = flags, sharedq = Some ?q, prealloc = nprealloc,
               percpu = None\<rparr>"
  let ?k3 = "?k2\<lparr>slab_plan := rest, slab_allocs := slab_allocs ?k2 + unat nprealloc\<rparr>"
  let ?pool2 = "?pool\<lparr>sharedq := Some (?q\<lparr>rq_objs := rq_objs ?q @ xs\<rparr>)\<rparr>"
  let ?tbl = "replicate (nr_cpus k) \<lparr>localq = None, refill_cnt = 0, full_cnt = 0, owner_cpu = 0\<rparr>"
  let ?k4 = "?k3\<lparr>mem_plan := replicate m True @ False # mp, mem_allocs := mem_allocs ?k3 + 1\<rparr>"
  have room: "length (rq_objs ?q) + unat nprealloc \<le> rq_size ?q - 1"
    using assms(5) by (simp add: word_less_nat_alt)
  have loop: "prealloc_loop (unat nprealloc) ?pool ?k2 = Inr (Some ?pool2, ?k3)"
    using assms(9,10) room by (intro prealloc_loop_ok) simp_all
  have tbl: "alloc_percpu ?k3 = (Some ?tbl, ?k4)"
    by (simp add: alloc_percpu_def mem_alloc_def)
  have "create_localqs (length ?tbl) 0 (unat localq_sz) (?pool2\<lparr>percpu := Some ?tbl\<rparr>) ?k4
          = Inl NULL_DEREF"
    using assms(8) by (intro create_localqs_failure [where cpus = ?tbl and m = m and mp = mp]) simp_all
  then show ?thesis
    unfolding create_checks_pass [OF assms(1-6)]
    using assms(7) loop tbl
    by (simp add: kzalloc_pool_def mem_alloc_def ring_queue_create_def del: replicate.simps)
qed

text \<open>
  The four earlier steps do roll back. When the pool record, the shared queue, a
  preallocation or the per-CPU table cannot be allocated, \<open>qmempool_create\<close> returns NULL,
  every object it allocated is released (\<open>mem_frees\<close> grows as \<open>mem_allocs\<close> does) and
  every preallocated element is back at the slab.
\<close>

lemma create_rollback_pool_record:
  assumes "QMEMPOOL_BULK \<le> unat localq_sz"
    and "QMEMPOOL_BULK * QMEMPOOL_REFILL_MULTIPLIER < unat sharedq_sz"
    and "POWEROF2 localq_sz" "POWEROF2 sharedq_sz"
    and "nprealloc < sharedq_sz" and "kmem_ptr = Some h"
    and "mem_plan k = False # mp"
  shows "qmempool_create localq_sz sharedq_sz nprealloc kmem_ptr flags k =
     Inr (None, k\<lparr>mem_plan := mp\<rparr>)"
  unfolding create_checks_pass [OF assms(1-6)]
  using assms(7) by (simp add: kzalloc_pool_def mem_alloc_def)

lemma create_rollback_sharedq:
  assumes "QMEMPOOL_BULK \<le> unat localq_sz"
    and "QMEMPOOL_BULK * QMEMPOOL_REFILL_MULTIPLIER < unat sharedq_sz"
    and "POWEROF2 localq_sz" "POWEROF2 sharedq_sz"
    and "nprealloc < sharedq_sz" and "kmem_ptr = Some h"
    and "mem_plan k = True # False # mp"
  shows "qmempool_create localq_sz sharedq_sz nprealloc kmem_ptr flags k =
     Inr (None, k\<lparr>mem_plan := mp, mem_allocs := mem_allocs k + 1,
                   mem_frees := mem_frees k + 1\<rparr>)"
  unfolding create_checks_pass [OF assms(1-6)]
  using assms(7)
  by (simp add: kzalloc_pool_def mem_alloc_def ring_queue_create_def destroy_return_NULL_def
      qmempool_destroy_def kfree_def mem_release_def)

lemma create_rollback_prealloc:
  assumes "QMEMPOOL_BULK \<le> unat localq_sz"
    and "QMEMPOOL_BULK * QMEMPOOL_REFILL_MULTIPLIER < unat sharedq_sz"
    and "POWEROF2 localq_sz" "POWEROF2 sharedq_sz"
    and "nprealloc < sharedq_sz" and "kmem_ptr = Some h"
    and "mem_plan k = True # True # mp"
    and "slab_plan k = map Some xs @ None # rest" "length xs < unat nprealloc"
  shows "qmempool_create localq_sz sharedq_sz nprealloc kmem_ptr flags k =
     Inr (None, k\<lparr>mem_plan := mp, mem_allocs := mem_allocs k + 2,
                   mem_frees := mem_frees k + 2, slab_plan := rest,
                   slab_allocs := slab_allocs k + length xs + 1,
                   slab_frees := slab_frees k @ xs\<rparr>)"
proof -
  let ?k2 = "k\<lparr>mem_plan := mp, mem_allocs := mem_allocs k + 2\<rparr>"
  let ?q = "\<lparr>rq_size = unat sharedq_sz, rq_objs = []\<rparr>"
  let ?pool = "\<lparr>kmem = kmem_ptr, gfp_mask = flags, sharedq = Some ?q, prealloc = nprealloc,
               percpu = None\<rparr>"
  have room: "length (rq_objs ?q) + unat nprealloc \<le> rq_size ?q - 1"
    using assms(5) by (simp add: word_less_nat_alt)
  have loop: "prealloc_loop (unat nprealloc) ?pool ?k2 =
     Inr (None,
          ?k2\<lparr>slab_plan := rest, slab_allocs := slab_allocs ?k2 + length xs + 1,
            slab_frees := slab_frees ?k2 @ rq_objs ?q @ xs, mem_frees := mem_frees ?k2 + 2\<rparr>)"
    using assms(8,9) room by (intro prealloc_loop_fail) simp_all
  show ?thesis
    unfolding create_checks_pass [OF assms(1-6)]
    using assms(7) loop
    by (simp add: kzalloc_pool_def mem_alloc_def ring_queue_create_def)
qed

lemma create_rollback_percpu:
  assumes "QMEMPOOL_BULK \<le> unat localq_sz"
    and "QMEMPOOL_BULK * QMEMPOOL_REFILL_MULTIPLIER < unat sharedq_sz"
    and "POWEROF2 localq_sz" "POWEROF2 sharedq_sz"
    and "nprealloc < sharedq_sz" and "kmem_ptr = Some h"
    and "mem_plan k = True # True # False # mp"
    and "slab_plan k = map Some xs @ rest" "length xs = unat nprealloc"
  shows "qmempool_create localq_sz sharedq_sz nprealloc kmem_ptr flags k =
     Inr (None, k\<lparr>mem_plan := mp, mem_allocs := mem_allocs k + 2,
                   mem_frees := mem_frees k + 2, slab_plan := rest,
                   slab_allocs := slab_allocs k + length xs,
                   slab_frees := slab_frees k @ xs\<rparr>)"
proof -
  let ?k2 = "k\<lparr>mem_plan := False # mp, mem_allocs := mem_allocs k + 2\<rparr>"
  let ?q = "\<lparr>rq_size = unat sharedq_sz, rq_objs = []\<rparr>"
  let ?pool = "\<lparr>kmem = kmem_ptr, gfp_mask = flags, sharedq = Some ?q, prealloc = nprealloc,
               percpu = None\<rparr>"
  have room: "length (rq_objs ?q) + unat nprealloc \<le> rq_size ?q - 1"
    using assms(5) by (simp add: word_less_nat_alt)
  have loop: "prealloc_loop (unat nprealloc) ?pool ?k2 =
     Inr (Some (?pool\<lparr>sharedq := Some (?q\<lparr>rq_objs := rq_objs ?q @ xs\<rparr>)\<rparr>),
          ?k2\<lparr>slab_plan := rest, slab_allocs := slab_allocs ?k2 + unat nprealloc\<rparr>)"
    using assms(8,9) room by (intro prealloc_loop_ok) simp_all
  show ?thesis
    unfolding create_checks_pass [OF assms(1-6)]
    using assms(7,9) loop
    by (simp add: kzalloc_pool_def mem_alloc_def ring_queue_create_def alloc_percpu_def
        destroy_return_NULL_def qmempool_destroy_def destroy_sharedq_eq kfree_def
        mem_release_def)
qed

subsection \<open>Out of memory in the slab path\<close>

text \<open>
  Claim C5 asks that a NULL from the direct allocation is the only way the slab path
  fails its caller. The code returns NULL exactly then (lemma
  \<open>alloc_from_slab_out_of_memory\<close> below), but a caller whose direct allocation
  succeeded can still be failed by the slab: when the first allocation of a refill round
  gives NULL, \<open>j\<close> is 0, the count \<open>j - 1\<close> handed to the bulk enqueue is \<open>- 1\<close>, which is
  \<open>2 ^ 32 - 1\<close> as an \<open>unsigned\<close>, the enqueue fails and the \<open>BUG_ON\<close> after it fires.
  Here the slab gives the caller's element 1 and then NULL.
\<close>

theorem alloc_from_slab_first_slot_failure:
  "qmempool_alloc_from_slab (ex_pool [] []) 0 (ex_kernel [Some 1, None] []) = Inl BUG"
proof -
  have sq: "sharedq (ex_pool [] []) = Some (ex_ring 64 [])" by (simp add: ex_pool_def)
  have first: "kmem_cache_alloc (ex_kernel [Some 1, None] [])
      = (Some 1, (ex_kernel [None] [])\<lparr>slab_allocs := 1\<rparr>)"
    by (simp add: kmem_cache_alloc_def ex_kernel_def)
  have plan: "slab_plan ((ex_kernel [None] [])\<lparr>slab_allocs := 1\<rparr>) = None # []"
    by (simp add: ex_kernel_def)
  have sz: "rq_size (ex_ring 64 []) < 2 ^ 32" by (simp add: ex_ring_def)
  have "refill_rounds (Suc (Suc 0)) 1 (ex_pool [] []) ((ex_kernel [None] [])\<lparr>slab_allocs := 1\<rparr>)
      = Inl BUG"
    using sq plan sz by (rule refill_round_failure_first)
  then show ?thesis
    unfolding qmempool_alloc_from_slab_def QMEMPOOL_REFILL_MULTIPLIER_def numeral_2_eq_2 first
    by simp
qed

text \<open>
  The same for every round: after the direct allocation and \<open>i\<close> full rounds, a NULL for
  the first element of the next round ends in the \<open>BUG_ON\<close>.
\<close>

lemma alloc_from_slab_round_start_failure:
  assumes "sharedq pool = Some sq"
    and "slab_plan k = Some e # map Some xs @ None # rest"
    and "length xs = i * QMEMPOOL_BULK" "i < QMEMPOOL_REFILL_MULTIPLIER"
    and "length (rq_objs sq) + i * QMEMPOOL_BULK \<le> rq_size sq - 1"
    and "rq_size sq < 2 ^ 32"
  shows "qmempool_alloc_from_slab pool flags k = Inl BUG"
proof -
  let ?k1 = "k\<lparr>slab_plan := map Some xs @ None # rest, slab_allocs := slab_allocs k + 1\<rparr>"
  let ?pool2 = "pool\<lparr>sharedq := Some (sq\<lparr>rq_objs := rq_objs sq @ xs\<rparr>)\<rparr>"
  let ?k2 = "?k1\<lparr>slab_plan := None # rest, slab_allocs := slab_allocs ?k1 + i * QMEMPOOL_BULK\<rparr>"
  from assms(4) obtain n where "QMEMPOOL_REFILL_MULTIPLIER = Suc (i + n)"
    by (auto dest: less_imp_Suc_add)
  then have n: "QMEMPOOL_REFILL_MULTIPLIER = i + Suc n" by simp
  have first: "kmem_cache_alloc k = (Some e, ?k1)"
    using assms(2) by (simp add: kmem_cache_alloc_def)
  have "refill_rounds (i + Suc n) e pool ?k1 = refill_rounds (Suc n) e ?pool2 ?k2"
    using assms(1,3,5)
    by (intro refill_rounds_prefix [where sq = sq and xs = xs and rest = "None # rest"]) simp_all
  also have "\<dots> = Inl BUG"
    by (rule refill_round_failure_first [where sq = "sq\<lparr>rq_objs := rq_objs sq @ xs\<rparr>" and rest = rest])
       (use assms(6) in simp_all)
  finally have "refill_rounds (i + Suc n) e pool ?k1 = Inl BUG" .
  then show ?thesis unfolding qmempool_alloc_from_slab_def n first by simp
qed

text \<open>
  What the code does keep of the claim. If the direct allocation gives NULL, the function
  returns NULL with the pool as it was and the kernel changed by that one call only (no
  refill round ran); and whenever the function returns NULL, the direct allocation gave
  NULL.
\<close>

lemma alloc_from_slab_out_of_memory:
  "(fst (kmem_cache_alloc k) = None \<longrightarrow>
      qmempool_alloc_from_slab pool flags k =
        Inr (None, pool, k\<lparr>slab_plan := tl (slab_plan k), slab_allocs := slab_allocs k + 1\<rparr>))
   \<and> (\<forall>pool' k'. qmempool_alloc_from_slab pool flags k = Inr (None, pool', k') \<longrightarrow>
         fst (kmem_cache_alloc k) = None)"
proof (intro conjI allI impI)
  assume "fst (kmem_cache_alloc k) = None"
  then show "qmempool_alloc_from_slab pool flags k =
        Inr (None, pool, k\<lparr>slab_plan := tl (slab_plan k), slab_allocs := slab_allocs k + 1\<rparr>)"
    by (auto simp: qmempool_alloc_from_slab_def kmem_cache_alloc_def split: list.splits)
next
  fix pool' k'
  assume "qmempool_alloc_from_slab pool flags k = Inr (None, pool', k')"
  then show "fst (kmem_cache_alloc k) = None" by (rule alloc_from_slab_NULL)
qed

text \<open>
  Whenever the direct allocation succeeds and the function returns, it returns the
  element of the direct allocation.
\<close>

lemma alloc_from_slab_returns_direct_elem:
  assumes "kmem_cache_alloc k = (Some e, k1)"
    and "qmempool_alloc_from_slab pool flags k = Inr (r, pool', k')"
  shows "r = Some e"
proof -
  from assms have "refill_rounds QMEMPOOL_REFILL_MULTIPLIER e pool k1 = Inr (r, pool', k')"
    by (simp add: qmempool_alloc_from_slab_def)
  from refill_rounds_frame [OF this] show ?thesis by simp
qed

text \<open>
  The allocation as a whole (the entry point as sections 4.3 to 4.5 of the specification
  give it) returns NULL only when the direct allocation of the slab path gave NULL.
\<close>

lemma qmempool_alloc_node_NULL:
  assumes "qmempool_alloc_node pool flags c k = Inr (None, pool', k')"
  shows "fst (kmem_cache_alloc k) = None"
proof -
  from assms obtain pool1 where "qmempool_alloc_from_slab pool1 flags k = Inr (None, pool', k')"
    by (auto simp: qmempool_alloc_node_def
        split: option.splits if_splits sum.splits prod.splits)
  then show ?thesis by (rule alloc_from_slab_NULL)
qed

subsection \<open>Refill of the local queue from the shared queue\<close>

text \<open>
  Claim C6. The slow path is entered when the local queue of the calling CPU was found
  empty; its size is at least \<open>QMEMPOOL_BULK\<close>, as \<open>qmempool_create\<close> requires. Then,
  whenever the bulk dequeue of \<open>QMEMPOOL_BULK\<close> elements from the shared queue succeeds,
  \<open>__qmempool_alloc_from_sharedq\<close> returns \<open>elems[0]\<close> of the dequeued batch, and the local
  queue holds exactly \<open>elems[1]\<close> to \<open>elems[QMEMPOOL_BULK - 1]\<close>, in order; whenever the
  bulk dequeue fails, the function returns NULL and the pool and the local queue are as
  they were.
\<close>

theorem alloc_from_sharedq_refill:
  assumes "sharedq pool = Some sq"
    and "rq_objs lq = []" and "QMEMPOOL_BULK \<le> rq_size lq"
  shows "(\<forall>elems sq'. ring_queue_mc_dequeue_bulk sq QMEMPOOL_BULK = Some (elems, sq') \<longrightarrow>
            qmempool_alloc_from_sharedq pool flags lq =
              Inr (Some (elems ! 0), pool\<lparr>sharedq := Some sq'\<rparr>,
                   lq\<lparr>rq_objs := map (\<lambda>i. elems ! i) [1..<QMEMPOOL_BULK]\<rparr>)
          \<and> length elems = QMEMPOOL_BULK
          \<and> length (map (\<lambda>i. elems ! i) [1..<QMEMPOOL_BULK]) = QMEMPOOL_BULK - 1)
       \<and> (ring_queue_mc_dequeue_bulk sq QMEMPOOL_BULK = None \<longrightarrow>
            qmempool_alloc_from_sharedq pool flags lq = Inr (None, pool, lq))"
proof (intro conjI allI impI)
  fix elems sq'
  assume deq: "ring_queue_mc_dequeue_bulk sq QMEMPOOL_BULK = Some (elems, sq')"
  then have enough: "QMEMPOOL_BULK \<le> length (rq_objs sq)"
    and elems: "elems = take QMEMPOOL_BULK (rq_objs sq)"
    by (auto simp: ring_queue_mc_dequeue_bulk_def ring_queue_dequeue_bulk_def split: if_splits)
  show len: "length elems = QMEMPOOL_BULK" using enough elems by simp
  have room: "length (rq_objs lq) + (QMEMPOOL_BULK - 1) \<le> rq_size lq - 1"
    using assms(2,3) by simp
  have "take (QMEMPOOL_BULK - 1) (drop 1 elems) = drop 1 elems" using len by simp
  also have "drop 1 elems = tl elems" by (simp add: drop_Suc)
  also have "tl elems = map (\<lambda>i. elems ! i) [1..<QMEMPOOL_BULK]"
    using tl_eq_map_nth [of elems] len by simp
  finally have rest: "take (QMEMPOOL_BULK - 1) (drop 1 elems)
      = map (\<lambda>i. elems ! i) [1..<QMEMPOOL_BULK]" .
  have enq: "ring_queue_sp_enqueue_bulk lq (drop 1 elems) (QMEMPOOL_BULK - 1)
      = Some (lq\<lparr>rq_objs := map (\<lambda>i. elems ! i) [1..<QMEMPOOL_BULK]\<rparr>)"
    using room assms(2) rest
    by (simp add: ring_queue_sp_enqueue_bulk_def ring_queue_enqueue_bulk_def del: One_nat_def)
  show "qmempool_alloc_from_sharedq pool flags lq =
              Inr (Some (elems ! 0), pool\<lparr>sharedq := Some sq'\<rparr>,
                   lq\<lparr>rq_objs := map (\<lambda>i. elems ! i) [1..<QMEMPOOL_BULK]\<rparr>)"
    using assms(1) deq enq by (simp add: qmempool_alloc_from_sharedq_def del: One_nat_def)
  show "length (map (\<lambda>i. elems ! i) [1..<QMEMPOOL_BULK]) = QMEMPOOL_BULK - 1" by simp
next
  assume "ring_queue_mc_dequeue_bulk sq QMEMPOOL_BULK = None"
  then show "qmempool_alloc_from_sharedq pool flags lq = Inr (None, pool, lq)"
    using assms(1) by (simp add: qmempool_alloc_from_sharedq_def)
qed

text \<open>
  The theorem of claim C6 at an empty local queue of size 16, once with 19 elements in
  the shared queue and once with 15.
\<close>

theorem alloc_from_sharedq_refill_witness:
  "rq_objs (ex_ring 16 []) = [] \<and> QMEMPOOL_BULK \<le> rq_size (ex_ring 16 [])
   \<and> ring_queue_mc_dequeue_bulk (ex_ring 64 [1..<20]) QMEMPOOL_BULK
       = Some ([1..<17], ex_ring 64 [17..<20])
   \<and> qmempool_alloc_from_sharedq (ex_pool [1..<20] []) 0 (ex_ring 16 [])
       = Inr (Some 1, ex_pool [17..<20] [], ex_ring 16 [2..<17])
   \<and> ring_queue_mc_dequeue_bulk (ex_ring 64 [1..<16]) QMEMPOOL_BULK = None
   \<and> qmempool_alloc_from_sharedq (ex_pool [1..<16] []) 0 (ex_ring 16 [])
       = Inr (None, ex_pool [1..<16] [], ex_ring 16 [])"
proof -
  have s: "\<And>xs. sharedq (ex_pool xs []) = Some (ex_ring 64 xs)"
    by (simp add: ex_pool_def)
  have a: "rq_objs (ex_ring 16 []) = []" by (simp add: ex_ring_def)
  have b: "QMEMPOOL_BULK \<le> rq_size (ex_ring 16 [])" by (simp add: ex_defs)
  have d1: "ring_queue_mc_dequeue_bulk (ex_ring 64 [1..<20]) QMEMPOOL_BULK
       = Some ([1..<17], ex_ring 64 [17..<20])"
    by code_simp
  have d2: "ring_queue_mc_dequeue_bulk (ex_ring 64 [1..<16]) QMEMPOOL_BULK = None"
    by code_simp
  have v: "(Inr (Some ([1..<17] ! 0), (ex_pool [1..<20] [])\<lparr>sharedq := Some (ex_ring 64 [17..<20])\<rparr>,
                (ex_ring 16 [])\<lparr>rq_objs := map (\<lambda>i. [1..<17] ! i) [1..<QMEMPOOL_BULK]\<rparr>)
              :: fault + (elem option \<times> qmempool \<times> ring_queue))
           = Inr (Some 1, ex_pool [17..<20] [], ex_ring 16 [2..<17])"
    by code_simp
  from alloc_from_sharedq_refill [OF s a b, of "[1..<20]" 0] d1
  have "qmempool_alloc_from_sharedq (ex_pool [1..<20] []) 0 (ex_ring 16 [])
       = Inr (Some 1, ex_pool [17..<20] [], ex_ring 16 [2..<17])"
    unfolding v [symmetric] by blast
  moreover from alloc_from_sharedq_refill [OF s a b, of "[1..<16]" 0] d2
  have "qmempool_alloc_from_sharedq (ex_pool [1..<16] []) 0 (ex_ring 16 [])
       = Inr (None, ex_pool [1..<16] [], ex_ring 16 [])"
    by blast
  ultimately show ?thesis using a b d1 d2 by blast
qed

text \<open>
  The function for any local queue: with room for \<open>QMEMPOOL_BULK - 1\<close> more elements the
  rest of the batch is appended; without that room the \<open>BUG_ON\<close> after the enqueue fires.
\<close>

lemma alloc_from_sharedq_cases:
  assumes "sharedq pool = Some sq"
  shows "(QMEMPOOL_BULK \<le> length (rq_objs sq)
            \<and> length (rq_objs lq) + (QMEMPOOL_BULK - 1) \<le> rq_size lq - 1 \<longrightarrow>
          qmempool_alloc_from_sharedq pool flags lq =
            Inr (Some (hd (take QMEMPOOL_BULK (rq_objs sq))),
                 pool\<lparr>sharedq := Some (sq\<lparr>rq_objs := drop QMEMPOOL_BULK (rq_objs sq)\<rparr>)\<rparr>,
                 lq\<lparr>rq_objs := rq_objs lq @ tl (take QMEMPOOL_BULK (rq_objs sq))\<rparr>)
          \<and> length (tl (take QMEMPOOL_BULK (rq_objs sq))) = QMEMPOOL_BULK - 1)
       \<and> (QMEMPOOL_BULK \<le> length (rq_objs sq)
            \<and> \<not> length (rq_objs lq) + (QMEMPOOL_BULK - 1) \<le> rq_size lq - 1 \<longrightarrow>
          qmempool_alloc_from_sharedq pool flags lq = Inl BUG)
       \<and> (length (rq_objs sq) < QMEMPOOL_BULK \<longrightarrow>
          qmempool_alloc_from_sharedq pool flags lq = Inr (None, pool, lq))"
proof (intro conjI impI)
  assume h: "QMEMPOOL_BULK \<le> length (rq_objs sq)
            \<and> length (rq_objs lq) + (QMEMPOOL_BULK - 1) \<le> rq_size lq - 1"
  have ne: "take QMEMPOOL_BULK (rq_objs sq) \<noteq> []"
    using h by (auto simp: QMEMPOOL_BULK_def)
  have hd0: "take QMEMPOOL_BULK (rq_objs sq) ! 0 = hd (take QMEMPOOL_BULK (rq_objs sq))"
    using ne by (simp add: hd_conv_nth)
  have tl1: "take (QMEMPOOL_BULK - 1) (drop 1 (take QMEMPOOL_BULK (rq_objs sq)))
             = tl (take QMEMPOOL_BULK (rq_objs sq))"
  proof -
    define ys where "ys = take QMEMPOOL_BULK (rq_objs sq)"
    have "length ys = QMEMPOOL_BULK" using h by (simp add: ys_def)
    then have "length (tl ys) \<le> QMEMPOOL_BULK - 1" by simp
    then have "take (QMEMPOOL_BULK - 1) (tl ys) = tl ys" by (rule take_all)
    moreover have "drop 1 ys = tl ys" by (simp add: drop_Suc)
    ultimately show ?thesis unfolding ys_def by simp
  qed
  show "qmempool_alloc_from_sharedq pool flags lq =
            Inr (Some (hd (take QMEMPOOL_BULK (rq_objs sq))),
                 pool\<lparr>sharedq := Some (sq\<lparr>rq_objs := drop QMEMPOOL_BULK (rq_objs sq)\<rparr>)\<rparr>,
                 lq\<lparr>rq_objs := rq_objs lq @ tl (take QMEMPOOL_BULK (rq_objs sq))\<rparr>)"
    using assms h hd0 tl1
    by (simp add: qmempool_alloc_from_sharedq_def ring_queue_mc_dequeue_bulk_def
        ring_queue_dequeue_bulk_def ring_queue_sp_enqueue_bulk_def ring_queue_enqueue_bulk_def
        del: One_nat_def)
  show "length (tl (take QMEMPOOL_BULK (rq_objs sq))) = QMEMPOOL_BULK - 1"
    using h by simp
next
  assume h: "QMEMPOOL_BULK \<le> length (rq_objs sq)
            \<and> \<not> length (rq_objs lq) + (QMEMPOOL_BULK - 1) \<le> rq_size lq - 1"
  show "qmempool_alloc_from_sharedq pool flags lq = Inl BUG"
    using assms h
    by (simp add: qmempool_alloc_from_sharedq_def ring_queue_mc_dequeue_bulk_def
        ring_queue_dequeue_bulk_def ring_queue_sp_enqueue_bulk_def ring_queue_enqueue_bulk_def
        del: One_nat_def)
next
  assume "length (rq_objs sq) < QMEMPOOL_BULK"
  then show "qmempool_alloc_from_sharedq pool flags lq = Inr (None, pool, lq)"
    using assms
    by (simp add: qmempool_alloc_from_sharedq_def ring_queue_mc_dequeue_bulk_def
        ring_queue_dequeue_bulk_def)
qed

text \<open>
  Claim C7. For an empty local queue of size at least \<open>QMEMPOOL_BULK\<close>, the bulk enqueue
  of \<open>QMEMPOOL_BULK - 1\<close> elements succeeds, and \<open>__qmempool_alloc_from_sharedq\<close> does not
  end in its \<open>BUG_ON\<close>.
\<close>

theorem localq_refill_enqueue_succeeds:
  assumes "rq_objs lq = []" and "QMEMPOOL_BULK \<le> rq_size lq"
  shows "ring_queue_sp_enqueue_bulk lq elems (QMEMPOOL_BULK - 1)
           = Some (lq\<lparr>rq_objs := take (QMEMPOOL_BULK - 1) elems\<rparr>)
       \<and> qmempool_alloc_from_sharedq pool flags lq \<noteq> Inl BUG"
proof
  show enq: "ring_queue_sp_enqueue_bulk lq elems (QMEMPOOL_BULK - 1)
           = Some (lq\<lparr>rq_objs := take (QMEMPOOL_BULK - 1) elems\<rparr>)" for elems
    using assms
    by (simp add: ring_queue_sp_enqueue_bulk_def ring_queue_enqueue_bulk_def del: One_nat_def)
  show "qmempool_alloc_from_sharedq pool flags lq \<noteq> Inl BUG"
    by (simp add: qmempool_alloc_from_sharedq_def enq split: option.splits del: One_nat_def)
qed

text \<open>
  The theorem of claim C7 at an empty local queue of size 16.
\<close>

theorem localq_refill_enqueue_succeeds_witness:
  "rq_objs (ex_ring 16 []) = [] \<and> QMEMPOOL_BULK \<le> rq_size (ex_ring 16 [])
   \<and> ring_queue_sp_enqueue_bulk (ex_ring 16 []) [2..<17] (QMEMPOOL_BULK - 1)
       = Some (ex_ring 16 [2..<17])
   \<and> qmempool_alloc_from_sharedq (ex_pool [1..<17] []) 0 (ex_ring 16 []) \<noteq> Inl BUG"
proof -
  have a: "rq_objs (ex_ring 16 []) = []" by (simp add: ex_ring_def)
  have b: "QMEMPOOL_BULK \<le> rq_size (ex_ring 16 [])" by (simp add: ex_defs)
  have c: "(ex_ring 16 [])\<lparr>rq_objs := take (QMEMPOOL_BULK - 1) [2..<17]\<rparr> = ex_ring 16 [2..<17]"
    by (simp add: ex_defs)
  from localq_refill_enqueue_succeeds [OF a b, of "[2..<17]" "ex_pool [1..<17] []" 0] a b c
  show ?thesis by simp
qed

subsection \<open>Freeing to the slab\<close>



subsection \<open>The slab path and the local queues\<close>

text \<open>
  Claim C9. Whatever \<open>__qmempool_alloc_from_slab\<close> returns, an element or NULL, the
  per-CPU table of the pool, and with it every local queue, is as it was: the pool
  differs in its shared queue at most.
\<close>

theorem alloc_from_slab_keeps_percpu:
  assumes "qmempool_alloc_from_slab pool flags k = Inr (r, pool', k')"
  shows "percpu pool' = percpu pool \<and> pool' = pool\<lparr>sharedq := sharedq pool'\<rparr>"
proof (cases "kmem_cache_alloc k")
  case (Pair r1 k1)
  show ?thesis
  proof (cases r1)
    case None
    with Pair assms show ?thesis by (simp add: qmempool_alloc_from_slab_def)
  next
    case (Some e)
    with Pair assms have "refill_rounds QMEMPOOL_REFILL_MULTIPLIER e pool k1 = Inr (r, pool', k')"
      by (simp add: qmempool_alloc_from_slab_def)
    from refill_rounds_frame [OF this] have eq: "pool' = pool\<lparr>sharedq := sharedq pool'\<rparr>" by simp
    have "percpu (pool\<lparr>sharedq := sharedq pool'\<rparr>) = percpu pool" by simp
    with eq show ?thesis by simp
  qed
qed

text \<open>
  The theorem of claim C9 at a run whose refill round fails, with two elements in the
  local queue.
\<close>

theorem alloc_from_slab_keeps_percpu_witness:
  "qmempool_alloc_from_slab (ex_pool [] [50, 51]) 0 (ex_kernel [Some 1, Some 2, Some 3, None] [])
     = Inr (Some 1, ex_pool [2] [50, 51], (ex_kernel [] [])\<lparr>slab_allocs := 4\<rparr>)
   \<and> percpu (ex_pool [2] [50, 51]) = percpu (ex_pool [] [50, 51])
   \<and> local_objs (ex_pool [2] [50, 51]) 0 = [50, 51]"
proof -
  have h: "qmempool_alloc_from_slab (ex_pool [] [50, 51]) 0 (ex_kernel [Some 1, Some 2, Some 3, None] [])
     = Inr (Some 1, ex_pool [2] [50, 51], (ex_kernel [] [])\<lparr>slab_allocs := 4\<rparr>)"
    by code_simp
  have l: "local_objs (ex_pool [2] [50, 51]) 0 = [50, 51]"
    by (simp add: local_objs_def ex_pool_def ex_ring_def)
  from alloc_from_slab_keeps_percpu [OF h] h l show ?thesis by simp
qed

subsection \<open>Destroying a partly constructed pool\<close>

text \<open>
  Claim C10 asks that \<open>qmempool_destroy\<close> is safe on every pool a failed creation hands
  it. It is not on the pool of a failed local queue creation: the per-CPU table is there,
  \<open>cpu->localq\<close> is NULL, and the loop dereferences it before anything is released.
\<close>

theorem qmempool_destroy_null_localq:
  "qmempool_destroy
     \<lparr>kmem = Some 7, gfp_mask = 0, sharedq = Some (ex_ring 64 [1, 2]), prealloc = 2,
      percpu = Some [\<lparr>localq = None, refill_cnt = 0, full_cnt = 0, owner_cpu = 0\<rparr>]\<rparr>
     (ex_kernel [] []) = Inl NULL_DEREF"
  by (simp add: qmempool_destroy_def)

text \<open>
  The two guards the code does have: without a per-CPU table the local tier is skipped,
  the shared queue (when there is one) is drained to the slab and released, and the pool
  record is released.
\<close>

lemma qmempool_destroy_no_percpu:
  assumes "percpu pool = None"
  shows "qmempool_destroy pool k =
     Inr (k\<lparr>slab_frees := slab_frees k @ shared_objs pool,
            mem_frees := mem_frees k + (case sharedq pool of None \<Rightarrow> 1 | Some q \<Rightarrow> 2)\<rparr>)"
  using assms
  by (simp add: qmempool_destroy_def destroy_sharedq_eq shared_objs_def kfree_def mem_release_def
      split: option.splits)

text \<open>
  A pool with every local queue in place is drained and released as a whole: the
  elements of the local queues and of the shared queue go back to the slab, and the
  local queues, the per-CPU table, the shared queue and the pool record are released.
\<close>

lemma qmempool_destroy_complete:
  assumes "percpu pool = Some cpus" "\<forall>cpu \<in> set cpus. localq cpu \<noteq> None"
    and "sharedq pool = Some sq"
  shows "qmempool_destroy pool k =
     Inr (k\<lparr>slab_frees := slab_frees k
               @ concat (map (\<lambda>cpu. rq_objs (the (localq cpu))) cpus) @ rq_objs sq,
            mem_frees := mem_frees k + length cpus + 3\<rparr>)"
  using assms(1,3)
  by (simp add: qmempool_destroy_def destroy_percpu_ok [OF assms(2)] destroy_sharedq_eq
      free_percpu_def kfree_def mem_release_def)

end
